theory Spec2Isabelle
  imports Complex_Main "HOL-Library.AList"
begin

section \<open>Python values, strings and dictionaries\<close>

text \<open>
  The module under study is \<^verbatim>\<open>src/data_extractor.py\<close>, class
  \<^verbatim>\<open>HealthcareDataExtractor\<close>. A Python \<^verbatim>\<open>str\<close> is a \<^typ>\<open>string\<close>; a
  character stands for its code point, so the model covers texts whose code points are
  below 256. A \<^verbatim>\<open>dict\<close> is an association list in insertion order, written
  to with \<^const>\<open>AList.update\<close> (an existing key keeps its place, a new key goes to the
  end) and read with \<^const>\<open>map_of\<close>.

  A \<^verbatim>\<open>float\<close> is the exact value of the decimal it was read from; rounding to
  binary64 is not modelled.
\<close>

datatype pyfloat = Finite rat | Infinite bool | NaN

datatype pyval = PyStr string | PyFloat pyfloat | PyNone

type_synonym 'v dict = "(string \<times> 'v) list"

text \<open>Truth value of an object, as \<^verbatim>\<open>not v\<close> reads it.\<close>

fun truthy :: "pyval \<Rightarrow> bool" where
  "truthy (PyStr s) = (s \<noteq> [])"
| "truthy (PyFloat f) = (f \<noteq> Finite 0)"
| "truthy PyNone = False"

text \<open>\<^verbatim>\<open>d.update(other)\<close>: the items of \<open>other\<close> are stored in their order.\<close>

definition dict_update :: "'v dict \<Rightarrow> 'v dict \<Rightarrow> 'v dict" where
  "dict_update d other = fold (\<lambda>(k, v) acc. AList.update k v acc) other d"

text \<open>\<^verbatim>\<open>str.isspace\<close> on one character (also the class \<^verbatim>\<open>\s\<close> of \<^verbatim>\<open>re\<close>).\<close>

definition py_isspace :: "char \<Rightarrow> bool" where
  "py_isspace c = (of_char c \<in> set [9, 10, 11, 12, 13, 28, 29, 30, 31, 32, 133, 160 :: nat])"

definition py_isupper :: "char \<Rightarrow> bool" where
  "py_isupper c = (let n = (of_char c :: nat) in
     (65 \<le> n \<and> n \<le> 90) \<or> (192 \<le> n \<and> n \<le> 222 \<and> n \<noteq> 215))"

text \<open>Lower case of one character: an upper-case letter gets bit 5 set (code point + 32).\<close>

definition py_lower_char :: "char \<Rightarrow> char" where
  "py_lower_char c =
     (if py_isupper c
      then (case c of Char b0 b1 b2 b3 b4 b5 b6 b7 \<Rightarrow> Char b0 b1 b2 b3 b4 True b6 b7)
      else c)"

definition py_lower :: "string \<Rightarrow> string" where
  "py_lower s = map py_lower_char s"

text \<open>\<^verbatim>\<open>s.strip()\<close>.\<close>

definition py_strip :: "string \<Rightarrow> string" where
  "py_strip s = rev (dropWhile py_isspace (rev (dropWhile py_isspace s)))"

text \<open>\<^verbatim>\<open>sub in s\<close> for strings.\<close>

fun py_in :: "string \<Rightarrow> string \<Rightarrow> bool" where
  "py_in sub [] = (sub = [])"
| "py_in sub (c # cs) = (take (length sub) (c # cs) = sub \<or> py_in sub cs)"

text \<open>
  The test \<^verbatim>\<open>'date' in key.lower() or 'dob' in key.lower()\<close>, which both
  \<^verbatim>\<open>_post_process_fields\<close> and \<^verbatim>\<open>_validate_extracted_data\<close> make.
\<close>

definition is_date_key :: "string \<Rightarrow> bool" where
  "is_date_key key = (py_in ''date'' (py_lower key) \<or> py_in ''dob'' (py_lower key))"

section \<open>Validation\<close>

record validation =
  is_valid :: bool
  errors :: "string list"
  warnings :: "string list"

definition required_fields :: "string list dict" where
  "required_fields =
     [(''insurance_claim'', [''patient_name'', ''member_id'', ''date_of_service'']),
      (''prescription'', [''patient_name'', ''medication'', ''dosage'']),
      (''medical_report'', [''patient_name'', ''report_type''])]"

text \<open>
  The body of the loop over the required fields: a field that is not a key of
  \<open>flds\<close>, or whose value is falsy, clears \<open>is_valid\<close> and adds an error.
\<close>

definition check_required :: "pyval dict \<Rightarrow> validation \<Rightarrow> string \<Rightarrow> validation" where
  "check_required flds v field =
     (if (case map_of flds field of None \<Rightarrow> True | Some value \<Rightarrow> \<not> truthy value)
      then v\<lparr>is_valid := False,
             errors := errors v @ [''Missing required field: '' @ field]\<rparr>
      else v)"

text \<open>
  The body of the loop over the items: a string value under a date key that
  \<^verbatim>\<open>datetime.fromisoformat\<close> rejects adds a warning. What that library function
  accepts depends on the Python version, so its verdict is the parameter
  \<open>fromisoformat\<close> (\<open>True\<close>: parsed, \<open>False\<close>: \<^verbatim>\<open>ValueError\<close>).
\<close>

fun check_date :: "(string \<Rightarrow> bool) \<Rightarrow> validation \<Rightarrow> string \<times> pyval \<Rightarrow> validation" where
  "check_date fromisoformat v (field, PyStr value) =
     (if is_date_key field \<and> \<not> fromisoformat value
      then v\<lparr>warnings := warnings v @ [''Invalid date format for '' @ field @ '': '' @ value]\<rparr>
      else v)"
| "check_date fromisoformat v (field, _) = v"

text \<open>
  \<^verbatim>\<open>_validate_extracted_data(fields, doc_type)\<close>; \<open>doc_type\<close> is \<open>None\<close> for
  Python's \<^verbatim>\<open>None\<close>, which is a key of no table.
\<close>

definition validate_extracted_data ::
  "(string \<Rightarrow> bool) \<Rightarrow> pyval dict \<Rightarrow> string option \<Rightarrow> validation" where
  "validate_extracted_data fromisoformat flds doc_type =
     (let validation = \<lparr>is_valid = True, errors = [], warnings = []\<rparr>;
          validation =
            (case doc_type of
               None \<Rightarrow> validation
             | Some t \<Rightarrow>
                 (case map_of required_fields t of
                    None \<Rightarrow> validation
                  | Some req \<Rightarrow> foldl (check_required flds) validation req))
      in foldl (check_date fromisoformat) validation flds)"

text \<open>
  The required fields as the specification lists them, for comparison with the table
  of the code.
\<close>

definition spec_required :: "string option \<Rightarrow> string list" where
  "spec_required doc_type =
     (if doc_type = Some ''insurance_claim''
        then [''patient_name'', ''member_id'', ''date_of_service'']
      else if doc_type = Some ''prescription''
        then [''patient_name'', ''medication'', ''dosage'']
      else if doc_type = Some ''medical_report''
        then [''patient_name'', ''report_type'']
      else [])"

text \<open>A required field is missing: absent from the map, or present with a falsy value.\<close>

definition missing :: "pyval dict \<Rightarrow> string \<Rightarrow> bool" where
  "missing flds field =
     (case map_of flds field of None \<Rightarrow> True | Some v \<Rightarrow> \<not> truthy v)"

section \<open>Library functions of the normalizer\<close>

definition is_digit :: "char \<Rightarrow> bool" where
  "is_digit c = (c \<in> set ''0123456789'')"

definition digit_val :: "char \<Rightarrow> nat" where
  "digit_val c = of_char c - 48"

text \<open>\<^verbatim>\<open>int(s)\<close> on a string of decimal digits.\<close>

definition digits_val :: "string \<Rightarrow> nat" where
  "digits_val s = foldl (\<lambda>n c. 10 * n + digit_val c) 0 s"

text \<open>\<^verbatim>\<open>s.replace(c, '')\<close> for a one-character \<open>c\<close>.\<close>

definition py_remove :: "char \<Rightarrow> string \<Rightarrow> string" where
  "py_remove c s = filter (\<lambda>x. x \<noteq> c) s"

subsection \<open>\<^verbatim>\<open>float(s)\<close>\<close>

text \<open>
  CPython reads a string as a float in four steps. (1) A string with a non-ASCII
  character is rewritten: a code point below 127 stays, other white space becomes a
  blank, and any other character becomes \<^verbatim>\<open>?\<close>, where the string is cut.
  (2) Underscores are allowed between two digits only, and are removed. (3) Leading and
  trailing C white space is dropped. (4) What is left must be, to its end, a sign and
  then either a decimal number (digits, an optional point and digits, an optional
  exponent) or one of \<^verbatim>\<open>inf\<close>, \<^verbatim>\<open>infinity\<close>, \<^verbatim>\<open>nan\<close> in any case.
  \<open>None\<close> stands for \<^verbatim>\<open>ValueError\<close>.
\<close>

fun float_to_ascii :: "string \<Rightarrow> string" where
  "float_to_ascii [] = []"
| "float_to_ascii (c # cs) =
     (if (of_char c :: nat) < 127 then c # float_to_ascii cs
      else if py_isspace c then CHR '' '' # float_to_ascii cs
      else ''?'')"

fun underscores_ok :: "char \<Rightarrow> string \<Rightarrow> bool" where
  "underscores_ok prev [] = (prev \<noteq> CHR ''_'')"
| "underscores_ok prev (c # cs) =
     (if c = CHR ''_'' then is_digit prev \<and> underscores_ok c cs
      else (prev \<noteq> CHR ''_'' \<or> is_digit c) \<and> underscores_ok c cs)"

definition c_isspace :: "char \<Rightarrow> bool" where
  "c_isspace c = (of_char c \<in> set [9, 10, 11, 12, 13, 32 :: nat])"

definition c_strip :: "string \<Rightarrow> string" where
  "c_strip s = rev (dropWhile c_isspace (rev (dropWhile c_isspace s)))"

text \<open>The value \<open>m \<cdot> 10\<^sup>e\<close>.\<close>

definition scale10 :: "nat \<Rightarrow> int \<Rightarrow> rat" where
  "scale10 m e = (if 0 \<le> e then of_nat m * 10 ^ nat e else of_nat m / 10 ^ nat (- e))"

text \<open>The exponent part: nothing, or \<^verbatim>\<open>e\<close>, an optional sign and digits.\<close>

definition float_exponent :: "string \<Rightarrow> int option" where
  "float_exponent s =
     (case s of
        [] \<Rightarrow> Some 0
      | c # t \<Rightarrow>
          if c = CHR ''e'' \<or> c = CHR ''E'' then
            (case t of
               [] \<Rightarrow> None
             | d # u \<Rightarrow>
                 if d = CHR ''-'' then
                   (if u \<noteq> [] \<and> list_all is_digit u then Some (- int (digits_val u)) else None)
                 else if d = CHR ''+'' then
                   (if u \<noteq> [] \<and> list_all is_digit u then Some (int (digits_val u)) else None)
                 else
                   (if list_all is_digit t then Some (int (digits_val t)) else None))
          else None)"

definition float_number :: "string \<Rightarrow> rat option" where
  "float_number s =
     (let ip = takeWhile is_digit s;
          r1 = dropWhile is_digit s;
          fp = (case r1 of [] \<Rightarrow> [] | c # t \<Rightarrow> if c = CHR ''.'' then takeWhile is_digit t else []);
          r2 = (case r1 of [] \<Rightarrow> [] | c # t \<Rightarrow> if c = CHR ''.'' then dropWhile is_digit t else r1)
      in if ip = [] \<and> fp = [] then None
         else (case float_exponent r2 of
                 None \<Rightarrow> None
               | Some e \<Rightarrow> Some (scale10 (digits_val (ip @ fp)) (e - int (length fp)))))"

definition float_unsigned :: "bool \<Rightarrow> string \<Rightarrow> pyfloat option" where
  "float_unsigned neg s =
     (if py_lower s = ''inf'' \<or> py_lower s = ''infinity'' then Some (Infinite neg)
      else if py_lower s = ''nan'' then Some NaN
      else (case float_number s of
              None \<Rightarrow> None
            | Some q \<Rightarrow> Some (Finite (if neg then - q else q))))"

definition float_signed :: "string \<Rightarrow> pyfloat option" where
  "float_signed s =
     (case s of
        [] \<Rightarrow> None
      | c # t \<Rightarrow>
          if c = CHR ''-'' then float_unsigned True t
          else if c = CHR ''+'' then float_unsigned False t
          else float_unsigned False s)"

definition py_float :: "string \<Rightarrow> pyfloat option" where
  "py_float s =
     (let a = (if list_all (\<lambda>c. (of_char c :: nat) < 128) s then s else float_to_ascii s)
      in if underscores_ok (CHR 0x00) a
         then float_signed (c_strip (py_remove (CHR ''_'') a))
         else None)"

subsection \<open>\<^verbatim>\<open>datetime.strptime\<close> and \<^verbatim>\<open>date.isoformat\<close>\<close>

text \<open>
  \<^verbatim>\<open>strptime\<close> turns the format into a regular expression, one group for each
  directive, and matches it at the start of the string:
  \<^verbatim>\<open>%m\<close> is \<^verbatim>\<open>1[0-2]|0[1-9]|[1-9]\<close>,
  \<^verbatim>\<open>%d\<close> is \<^verbatim>\<open>3[0-1]|[1-2]\d|0[1-9]|[1-9]| [1-9]\<close>,
  \<^verbatim>\<open>%Y\<close> is \<^verbatim>\<open>\d\d\d\d\<close> and \<^verbatim>\<open>%y\<close> is \<^verbatim>\<open>\d\d\<close>.
  The alternatives are tried in this order, with backtracking; the first match of the
  whole expression is taken, and it is an error if it leaves part of the string unread.
\<close>

datatype directive = Dir_m | Dir_d | Dir_Y | Dir_y | Lit char

definition alt1 :: "(char \<Rightarrow> bool) \<Rightarrow> string \<Rightarrow> (string \<times> string) list" where
  "alt1 p s = (case s of a # r \<Rightarrow> if p a then [([a], r)] else [] | _ \<Rightarrow> [])"

definition alt2 :: "(char \<Rightarrow> bool) \<Rightarrow> (char \<Rightarrow> bool) \<Rightarrow> string \<Rightarrow> (string \<times> string) list" where
  "alt2 p q s = (case s of a # b # r \<Rightarrow> if p a \<and> q b then [([a, b], r)] else [] | _ \<Rightarrow> [])"

definition in_chars :: "string \<Rightarrow> char \<Rightarrow> bool" where
  "in_chars cs c = (c \<in> set cs)"

text \<open>The ways one directive matches a prefix of \<open>s\<close>: the text matched, and the rest.\<close>

fun dir_alts :: "directive \<Rightarrow> string \<Rightarrow> (string \<times> string) list" where
  "dir_alts Dir_m s =
     alt2 (in_chars ''1'') (in_chars ''012'') s
     @ alt2 (in_chars ''0'') (in_chars ''123456789'') s
     @ alt1 (in_chars ''123456789'') s"
| "dir_alts Dir_d s =
     alt2 (in_chars ''3'') (in_chars ''01'') s
     @ alt2 (in_chars ''12'') is_digit s
     @ alt2 (in_chars ''0'') (in_chars ''123456789'') s
     @ alt1 (in_chars ''123456789'') s
     @ alt2 (in_chars '' '') (in_chars ''123456789'') s"
| "dir_alts Dir_Y s =
     (case s of
        a # b # c # d # r \<Rightarrow>
          if is_digit a \<and> is_digit b \<and> is_digit c \<and> is_digit d then [([a, b, c, d], r)] else []
      | _ \<Rightarrow> [])"
| "dir_alts Dir_y s = alt2 is_digit is_digit s"
| "dir_alts (Lit x) s = alt1 (\<lambda>c. py_lower_char c = py_lower_char x) s"

text \<open>
  All matches of a format at the start of \<open>s\<close>, best first: the text found for each
  directive, and the rest of the string.
\<close>

fun fmt_match :: "directive list \<Rightarrow> string \<Rightarrow> ((directive \<times> string) list \<times> string) list" where
  "fmt_match [] s = [([], s)]"
| "fmt_match (d # ds) s =
     concat (map (\<lambda>(m, r). map (\<lambda>(found, rest). ((d, m) # found, rest)) (fmt_match ds r))
                 (dir_alts d s))"

record date =
  year :: nat
  month :: nat
  day :: nat

definition is_leap :: "nat \<Rightarrow> bool" where
  "is_leap y = (y mod 4 = 0 \<and> (y mod 100 \<noteq> 0 \<or> y mod 400 = 0))"

definition days_in_month :: "nat \<Rightarrow> nat \<Rightarrow> nat" where
  "days_in_month y m =
     (if m = 2 then (if is_leap y then 29 else 28)
      else if m \<in> set [4, 6, 9, 11] then 30 else 31)"

text \<open>The check that the constructor of a date makes.\<close>

definition valid_date :: "date \<Rightarrow> bool" where
  "valid_date dt =
     (1 \<le> year dt \<and> year dt \<le> 9999 \<and> 1 \<le> month dt \<and> month dt \<le> 12
      \<and> 1 \<le> day dt \<and> day dt \<le> days_in_month (year dt) (month dt))"

text \<open>
  The fields of the date from the groups found: a two-digit year up to 68 is in the
  2000s, above in the 1900s; a field the format does not have is 1900, 1 and 1.
\<close>

definition date_of_found :: "(directive \<times> string) list \<Rightarrow> date" where
  "date_of_found found =
     \<lparr>year = (case map_of found Dir_y of
                Some t \<Rightarrow> (if digits_val t \<le> 68 then 2000 + digits_val t else 1900 + digits_val t)
              | None \<Rightarrow> (case map_of found Dir_Y of Some t \<Rightarrow> digits_val t | None \<Rightarrow> 1900)),
      month = (case map_of found Dir_m of Some t \<Rightarrow> digits_val (py_strip t) | None \<Rightarrow> 1),
      day = (case map_of found Dir_d of Some t \<Rightarrow> digits_val (py_strip t) | None \<Rightarrow> 1)\<rparr>"

text \<open>\<^verbatim>\<open>datetime.strptime(s, fmt)\<close>; \<open>None\<close> stands for \<^verbatim>\<open>ValueError\<close>.\<close>

definition strptime :: "string \<Rightarrow> directive list \<Rightarrow> date option" where
  "strptime s fmt =
     (case fmt_match fmt s of
        [] \<Rightarrow> None
      | (found, rest) # _ \<Rightarrow>
          if rest \<noteq> [] then None
          else if valid_date (date_of_found found) then Some (date_of_found found)
          else None)"

definition digit_char :: "nat \<Rightarrow> char" where
  "digit_char n = ''0123456789'' ! (n mod 10)"

text \<open>\<^verbatim>\<open>dt.date().isoformat()\<close>, that is \<^verbatim>\<open>'%04d-%02d-%02d'\<close>, for a year up to 9999.\<close>

definition isoformat :: "date \<Rightarrow> string" where
  "isoformat dt =
     [digit_char (year dt div 1000), digit_char (year dt div 100),
      digit_char (year dt div 10), digit_char (year dt), CHR ''-'',
      digit_char (month dt div 10), digit_char (month dt), CHR ''-'',
      digit_char (day dt div 10), digit_char (day dt)]"

section \<open>Normalization\<close>

text \<open>
  The formats of \<^verbatim>\<open>_parse_date\<close>, in its order:
  \<^verbatim>\<open>'%m/%d/%Y', '%m-%d-%Y', '%Y-%m-%d', '%m/%d/%y', '%m-%d-%y'\<close>.
\<close>

definition date_formats :: "directive list list" where
  "date_formats =
     [[Dir_m, Lit (CHR ''/''), Dir_d, Lit (CHR ''/''), Dir_Y],
      [Dir_m, Lit (CHR ''-''), Dir_d, Lit (CHR ''-''), Dir_Y],
      [Dir_Y, Lit (CHR ''-''), Dir_m, Lit (CHR ''-''), Dir_d],
      [Dir_m, Lit (CHR ''/''), Dir_d, Lit (CHR ''/''), Dir_y],
      [Dir_m, Lit (CHR ''-''), Dir_d, Lit (CHR ''-''), Dir_y]]"

text \<open>
  The loop of \<^verbatim>\<open>_parse_date\<close> over the formats: the first format that parses
  returns the ISO text of its date; a \<^verbatim>\<open>ValueError\<close> goes on to the next format.
  \<open>None\<close>: the loop has ended without a return.
\<close>

fun try_formats :: "string \<Rightarrow> directive list list \<Rightarrow> string option" where
  "try_formats date_str [] = None"
| "try_formats date_str (fmt # fmts) =
     (case strptime date_str fmt of
        Some dt \<Rightarrow> Some (isoformat dt)
      | None \<Rightarrow> try_formats date_str fmts)"

text \<open>
  \<^verbatim>\<open>_parse_date(date_str)\<close>. The result \<open>None\<close> is Python's \<^verbatim>\<open>None\<close>, returned
  for the empty string; when no format parses, the argument itself is returned.
\<close>

definition parse_date :: "string \<Rightarrow> string option" where
  "parse_date date_str =
     (if date_str = [] then None
      else (case try_formats date_str date_formats of
              Some s \<Rightarrow> Some s
            | None \<Rightarrow> Some date_str))"

text \<open>
  The conversion in the loop body of \<^verbatim>\<open>_post_process_fields\<close>, from the stripped
  value \<open>cleaned\<close>: a number for the two amount keys (the stripped value itself when
  \<^verbatim>\<open>float\<close> raises), \<^verbatim>\<open>_parse_date\<close> for a date key, the stripped value
  otherwise.
\<close>

definition convert_field :: "string \<Rightarrow> string \<Rightarrow> pyval" where
  "convert_field key cleaned =
     (if key \<in> set [''amount'', ''patient_responsibility''] then
        (case py_float (py_strip (py_remove (CHR '','') (py_remove (CHR ''$'') cleaned))) of
           Some x \<Rightarrow> PyFloat x
         | None \<Rightarrow> PyStr cleaned)
      else if is_date_key key then
        (case parse_date cleaned of Some s \<Rightarrow> PyStr s | None \<Rightarrow> PyNone)
      else PyStr cleaned)"

text \<open>One round of the loop: an empty value is skipped, any other is stored converted.\<close>

definition post_process_step :: "pyval dict \<Rightarrow> string \<times> string \<Rightarrow> pyval dict" where
  "post_process_step processed item =
     (case item of (key, value) \<Rightarrow>
        if value = [] then processed
        else AList.update key (convert_field key (py_strip value)) processed)"

text \<open>\<^verbatim>\<open>_post_process_fields(fields)\<close>.\<close>

definition post_process_fields :: "string dict \<Rightarrow> pyval dict" where
  "post_process_fields flds = foldl post_process_step [] flds"

section \<open>Regular expressions\<close>

text \<open>
  The patterns of the extractor are searched with
  \<^verbatim>\<open>re.search(pattern, text, re.IGNORECASE | re.DOTALL)\<close>. They use literal text,
  character sets and classes, alternation, greedy and lazy repetition, a look-ahead and
  the anchors \<^verbatim>\<open>$\<close> and \<^verbatim>\<open>\Z\<close>; each has one capturing group, which nothing
  repeats and no alternative skips. A pattern is therefore a prefix, the group and a
  suffix, each an expression without groups, and the matcher is the backtracking one of
  \<^verbatim>\<open>re\<close>: it lists the ways an expression matches a prefix of the input, the
  preferred way first, each given by the input left over.
\<close>

datatype cset_item = Ch char | Range char char | Digit | Word | Space

datatype regex =
    Str string
  | Cls "cset_item list"
  | Cat regex regex
  | Alt regex regex
  | Eps
  | Repeat nat "nat option" bool regex
  | Ahead regex
  | Eol
  | Eos

abbreviation Star :: "regex \<Rightarrow> regex" where
  "Star r \<equiv> Repeat 0 None True r"

abbreviation Plus :: "regex \<Rightarrow> regex" where
  "Plus r \<equiv> Repeat 1 None True r"

abbreviation Opt :: "regex \<Rightarrow> regex" where
  "Opt r \<equiv> Repeat 0 (Some 1) True r"

abbreviation Times :: "nat \<Rightarrow> nat \<Rightarrow> regex \<Rightarrow> regex" where
  "Times lo hi r \<equiv> Repeat lo (Some hi) True r"

abbreviation LazyPlus :: "regex \<Rightarrow> regex" where
  "LazyPlus r \<equiv> Repeat 1 None False r"

definition py_islower :: "char \<Rightarrow> bool" where
  "py_islower c = (let n = (of_char c :: nat) in
     (97 \<le> n \<and> n \<le> 122) \<or> (224 \<le> n \<and> n \<le> 254 \<and> n \<noteq> 247))"

text \<open>Upper case of one character, where it is below 256: bit 5 cleared.\<close>

definition py_upper_char :: "char \<Rightarrow> char" where
  "py_upper_char c =
     (if py_islower c
      then (case c of Char b0 b1 b2 b3 b4 b5 b6 b7 \<Rightarrow> Char b0 b1 b2 b3 b4 False b6 b7)
      else c)"

text \<open>\<^verbatim>\<open>str.isalnum\<close> on one character; with the underscore, the class \<^verbatim>\<open>\w\<close>.\<close>

definition py_isalnum :: "char \<Rightarrow> bool" where
  "py_isalnum c = (let n = (of_char c :: nat) in
     (48 \<le> n \<and> n \<le> 57) \<or> (65 \<le> n \<and> n \<le> 90) \<or> (97 \<le> n \<and> n \<le> 122)
     \<or> n \<in> set [170, 178, 179, 181, 185, 186, 188, 189, 190]
     \<or> (192 \<le> n \<and> n \<le> 214) \<or> (216 \<le> n \<and> n \<le> 246) \<or> 248 \<le> n)"

definition in_range :: "char \<Rightarrow> char \<Rightarrow> char \<Rightarrow> bool" where
  "in_range lo hi c = ((of_char lo :: nat) \<le> of_char c \<and> (of_char c :: nat) \<le> of_char hi)"

text \<open>Membership of a character in an item of a set, ignoring case.\<close>

fun item_has :: "cset_item \<Rightarrow> char \<Rightarrow> bool" where
  "item_has (Ch x) c = (py_lower_char c = py_lower_char x)"
| "item_has (Range lo hi) c =
     (in_range lo hi c \<or> in_range lo hi (py_lower_char c) \<or> in_range lo hi (py_upper_char c))"
| "item_has Digit c = is_digit c"
| "item_has Word c = (py_isalnum c \<or> c = CHR ''_'')"
| "item_has Space c = py_isspace c"

text \<open>
  Repetition of a matcher \<open>f\<close>, between \<open>lo\<close> and \<open>hi\<close> times (\<open>None\<close>: no upper
  bound). A greedy repetition prefers one more round, a lazy one prefers to stop. Once
  the lower bound is reached, a round that consumes nothing is not taken. \<open>n\<close> bounds
  the number of rounds.
\<close>

primrec rep_match ::
  "(string \<Rightarrow> string list) \<Rightarrow> bool \<Rightarrow> nat \<Rightarrow> nat \<Rightarrow> nat option \<Rightarrow> string \<Rightarrow> string list" where
  "rep_match f greedy 0 lo hi s = (if lo = 0 then [s] else [])"
| "rep_match f greedy (Suc n) lo hi s =
     (let stop = (if lo = 0 then [s] else []);
          more = (if hi = Some 0 then []
                  else concat (map (rep_match f greedy n (lo - 1) (map_option (\<lambda>h. h - 1) hi))
                                   (filter (\<lambda>r. 0 < lo \<or> length r < length s) (f s))))
      in if greedy then more @ stop else stop @ more)"

text \<open>
  \<open>rmatch r s\<close>: the ways \<open>r\<close> matches at the start of \<open>s\<close>, as the list of what is
  left of \<open>s\<close>, in the order in which \<^verbatim>\<open>re\<close> tries them.
\<close>

fun rmatch :: "regex \<Rightarrow> string \<Rightarrow> string list" where
  "rmatch (Str w) s =
     (if length w \<le> length s \<and> py_lower (take (length w) s) = py_lower w
      then [drop (length w) s] else [])"
| "rmatch (Cls items) s =
     (case s of
        [] \<Rightarrow> []
      | c # r \<Rightarrow> if list_ex (\<lambda>i. item_has i c) items then [r] else [])"
| "rmatch (Cat a b) s = concat (map (rmatch b) (rmatch a s))"
| "rmatch (Alt a b) s = rmatch a s @ rmatch b s"
| "rmatch Eps s = [s]"
| "rmatch (Repeat lo hi greedy r) s = rep_match (rmatch r) greedy (lo + length s) lo hi s"
| "rmatch (Ahead r) s = (if rmatch r s = [] then [] else [s])"
| "rmatch Eol s = (if s = [] \<or> s = [CHR 0x0A] then [s] else [])"
| "rmatch Eos s = (if s = [] then [s] else [])"

datatype pattern = Grouped regex regex regex | Ungrouped regex

text \<open>A match object: \<^verbatim>\<open>m.group(0)\<close> and \<^verbatim>\<open>m.groups()\<close>.\<close>

record rematch =
  whole :: string
  groups :: "string list"

text \<open>The match of a pattern at the start of \<open>s\<close>: the first way that matches all of it.\<close>

fun match_here :: "pattern \<Rightarrow> string \<Rightarrow> rematch option" where
  "match_here (Grouped a b c) s =
     (case concat (map (\<lambda>s1. concat (map (\<lambda>s2. map (\<lambda>s3. (s1, s2, s3)) (rmatch c s2))
                                            (rmatch b s1)))
                       (rmatch a s)) of
        [] \<Rightarrow> None
      | (s1, s2, s3) # _ \<Rightarrow>
          Some \<lparr>whole = take (length s - length s3) s,
                groups = [take (length s1 - length s2) s1]\<rparr>)"
| "match_here (Ungrouped r) s =
     (case rmatch r s of
        [] \<Rightarrow> None
      | s1 # _ \<Rightarrow> Some \<lparr>whole = take (length s - length s1) s, groups = []\<rparr>)"

text \<open>\<^verbatim>\<open>re.search\<close>: the match at the leftmost position that has one.\<close>

fun re_search :: "pattern \<Rightarrow> string \<Rightarrow> rematch option" where
  "re_search p [] = match_here p []"
| "re_search p (c # cs) =
     (case match_here p (c # cs) of
        Some m \<Rightarrow> Some m
      | None \<Rightarrow> re_search p cs)"

section \<open>The pattern tables\<close>

abbreviation sp_colon :: regex where
  "sp_colon \<equiv> Star (Cls [Ch (CHR '':''), Space])"

abbreviation words :: regex where
  "words \<equiv> Cat (Plus (Cls [Word])) (Star (Cat (Plus (Cls [Space])) (Plus (Cls [Word]))))"

abbreviation slash_date :: regex where
  "slash_date \<equiv>
     Cat (Times 1 2 (Cls [Digit])) (Cat (Cls [Ch (CHR ''/''), Ch (CHR ''-'')])
      (Cat (Times 1 2 (Cls [Digit])) (Cat (Cls [Ch (CHR ''/''), Ch (CHR ''-'')])
        (Times 2 4 (Cls [Digit])))))"

abbreviation line_end :: regex where
  "line_end \<equiv> Ahead (Alt (Str [CHR 0x0A]) Eol)"

abbreviation text_end :: regex where
  "text_end \<equiv> Ahead (Alt (Str [CHR 0x0A]) Eos)"

abbreviation prose :: regex where
  "prose \<equiv> Plus (Cls [Word, Space, Ch (CHR ''.''), Ch (CHR '',''), Ch (CHR ''-'')])"

text \<open>\<^verbatim>\<open>self.patterns\<close>, in the order of the source.\<close>

definition patterns :: "pattern dict" where
  "patterns =
   [(''patient_name'',
       Grouped (Cat (Alt (Str ''patient'') (Str ''name'')) sp_colon) words Eps),
    (''date_of_birth'',
       Grouped (Cat (Alt (Str ''dob'') (Str ''date of birth'')) sp_colon) slash_date Eps),
    (''member_id'',
       Grouped (Cat (Alt (Cat (Str ''member'') (Cat (Star (Cls [Space])) (Str ''id'')))
                         (Cat (Str ''policy'') (Cat (Star (Cls [Space])) (Str ''number''))))
                    sp_colon)
               (Plus (Cls [Word])) Eps),
    (''date_of_service'',
       Grouped (Cat (Alt (Str ''date of service'') (Alt (Str ''service date'') (Str ''dos'')))
                    sp_colon)
               slash_date Eps),
    (''provider_name'',
       Grouped (Cat (Alt (Str ''provider'') (Alt (Str ''doctor'') (Str ''physician''))) sp_colon)
               words Eps),
    (''diagnosis_code'',
       Grouped (Cat (Alt (Str ''diagnosis'') (Str ''dx''))
                 (Cat (Star (Cls [Space, Word]))
                   (Cat (Str ''code'') (Star (Cls [Space, Ch (CHR '':'')])))))
               (Cat (Cls [Range (CHR ''A'') (CHR ''Z'')])
                 (Cat (Times 2 5 (Cls [Digit]))
                   (Opt (Cat (Str ''.'') (Plus (Cls [Digit]))))))
               Eps),
    (''procedure_code'',
       Grouped (Cat (Alt (Str ''procedure'') (Alt (Str ''tx'') (Str ''treatment'')))
                 (Cat (Star (Cls [Space, Word]))
                   (Cat (Str ''code'') (Star (Cls [Space, Ch (CHR '':'')])))))
               (Cat (Cls [Range (CHR ''A'') (CHR ''Z'')])
                 (Cat (Times 1 4 (Cls [Digit]))
                   (Cat (Opt (Cls [Range (CHR ''A'') (CHR ''Z'')]))
                     (Times 0 4 (Cls [Digit])))))
               Eps),
    (''amount'',
       Grouped (Cat (Alt (Str ''amount'') (Alt (Str ''total'') (Alt (Str ''charge'') (Str ''balance''))))
                 (Cat (Star (Cls [Space, Ch (CHR '':'')]))
                   (Cat (Opt (Str ''$'')) (Star (Cls [Space])))))
               (Cat (Plus (Cls [Digit])) (Opt (Cat (Str ''.'') (Times 2 2 (Cls [Digit])))))
               Eps),
    (''phone'',
       Grouped (Cat (Alt (Str ''phone'') (Alt (Str ''tel'') (Str ''mobile'')))
                    (Star (Cls [Space, Ch (CHR '':'')])))
               (Cat (Opt (Cls [Ch (CHR ''('')]))
                 (Cat (Times 3 3 (Cls [Digit]))
                   (Cat (Opt (Cls [Ch (CHR ''-''), Space, Ch (CHR ''.''), Ch (CHR '')'')]))
                     (Cat (Star (Cls [Space]))
                       (Cat (Times 3 3 (Cls [Digit]))
                         (Cat (Opt (Cls [Ch (CHR ''-''), Space, Ch (CHR ''.'')]))
                           (Cat (Star (Cls [Space])) (Times 4 4 (Cls [Digit])))))))))
               Eps)]"

text \<open>\<^verbatim>\<open>self.doc_type_patterns\<close>.\<close>

definition doc_type_patterns :: "pattern dict dict" where
  "doc_type_patterns =
   [(''insurance_claim'',
      [(''claim_number'',
          Grouped (Cat (Alt (Cat (Str ''claim'') (Cat (Star (Cls [Space])) (Opt (Str ''#''))))
                            (Str ''id''))
                       (Star (Cls [Space, Ch (CHR '':'')])))
                  (Plus (Cls [Range (CHR ''A'') (CHR ''Z''), Range (CHR ''0'') (CHR ''9''),
                              Ch (CHR ''-'')]))
                  Eps),
       (''group_number'',
          Grouped (Cat (Str ''group'') (Cat (Star (Cls [Space])) (Cat (Opt (Str ''#''))
                    (Star (Cls [Space, Ch (CHR '':'')])))))
                  (Plus (Cls [Word])) Eps),
       (''adjustment_reason'',
          Grouped (Cat (Str ''adjustment'') (Cat (Star (Cls [Space])) (Cat (Str ''reason'')
                    (Star (Cls [Space, Ch (CHR '':'')])))))
                  (Cat (Cls [Word]) (LazyPlus (Cls [Word, Space])))
                  line_end),
       (''patient_responsibility'',
          Grouped (Cat (Str ''patient'') (Cat (Star (Cls [Space])) (Cat (Str ''responsibility'')
                    (Cat (Star (Cls [Space, Ch (CHR '':'')]))
                      (Cat (Opt (Str ''$'')) (Star (Cls [Space])))))))
                  (Cat (Plus (Cls [Digit])) (Cat (Str ''.'') (Times 2 2 (Cls [Digit]))))
                  Eps)]),
    (''prescription'',
      [(''medication'',
          Grouped (Cat (Str ''medication'') (Star (Cls [Space, Ch (CHR '':'')])))
                  (Plus (Cls [Word, Space, Ch (CHR ''-'')]))
                  line_end),
       (''dosage'',
          Grouped (Cat (Str ''dosage'') (Star (Cls [Space, Ch (CHR '':'')])))
                  (Plus (Cls [Digit, Space, Word, Ch (CHR ''/'')]))
                  line_end),
       (''frequency'',
          Grouped (Cat (Str ''frequency'') (Star (Cls [Space, Ch (CHR '':'')])))
                  (Plus (Cls [Word, Space]))
                  line_end),
       (''refills'',
          Grouped (Cat (Str ''refill'') (Cat (Opt (Str ''s'')) (Star (Cls [Space, Ch (CHR '':'')]))))
                  (Plus (Cls [Digit])) Eps),
       (''prescriber'',
          Grouped (Cat (Str ''prescriber'') (Star (Cls [Space, Ch (CHR '':'')])))
                  (Plus (Cls [Word, Space, Ch (CHR ''.'')]))
                  line_end)]),
    (''medical_report'',
      [(''report_type'',
          Grouped (Cat (Str ''report'') (Cat (Star (Cls [Space])) (Cat (Str ''type'')
                    (Star (Cls [Space, Ch (CHR '':'')])))))
                  (Plus (Cls [Word, Space]))
                  line_end),
       (''findings'',
          Grouped (Cat (Str ''findings'') (Star (Cls [Space, Ch (CHR '':'')]))) prose text_end),
       (''impression'',
          Grouped (Cat (Str ''impression'') (Star (Cls [Space, Ch (CHR '':'')]))) prose text_end),
       (''recommendations'',
          Grouped (Cat (Str ''recommendation'') (Cat (Opt (Str ''s''))
                    (Star (Cls [Space, Ch (CHR '':'')]))))
                  prose text_end)])]"

section \<open>Extraction\<close>

text \<open>
  One round of the loop of \<^verbatim>\<open>_extract_using_patterns\<close>: a pattern that matches
  stores the stripped text of its group, or of the whole match when it has no group.
\<close>

definition extract_step :: "string \<Rightarrow> string dict \<Rightarrow> string \<times> pattern \<Rightarrow> string dict" where
  "extract_step text extracted item =
     (case item of (field, pattern) \<Rightarrow>
        (case re_search pattern text of
           None \<Rightarrow> extracted
         | Some m \<Rightarrow>
             AList.update field
               (if groups m \<noteq> [] then py_strip (hd (groups m)) else py_strip (whole m))
               extracted))"

text \<open>\<^verbatim>\<open>_extract_using_patterns(text, patterns)\<close>.\<close>

definition extract_using_patterns :: "string \<Rightarrow> pattern dict \<Rightarrow> string dict" where
  "extract_using_patterns text pats = foldl (extract_step text) [] pats"

section \<open>The entry point\<close>

text \<open>
  The returned dictionary: a key that is not set is \<open>None\<close>. For the empty text the
  function returns \<^verbatim>\<open>{}\<close>, where no key is set.
\<close>

record result =
  extraction_timestamp :: "string option"
  document_type :: "string option"
  extracted_fields :: "pyval dict option"
  validation :: "validation option"
  error :: "string option"

definition empty_result :: result where
  "empty_result =
     \<lparr>extraction_timestamp = None, document_type = None, extracted_fields = None,
      validation = None, error = None\<rparr>"

text \<open>An exception of class \<^verbatim>\<open>Exception\<close>, with the text that \<^verbatim>\<open>str(e)\<close> gives.\<close>

datatype exn = PyException string

fun str_exn :: "exn \<Rightarrow> string" where
  "str_exn (PyException msg) = msg"

text \<open>The handler \<^verbatim>\<open>except Exception as e: result['error'] = str(e)\<close>.\<close>

definition on_error :: "result \<Rightarrow> exn \<Rightarrow> result" where
  "on_error r e = r\<lparr>error := Some (str_exn e)\<rparr>"

text \<open>A dictionary of strings seen as a dictionary of objects.\<close>

definition as_values :: "string dict \<Rightarrow> pyval dict" where
  "as_values d = map (\<lambda>(k, v). (k, PyStr v)) d"

text \<open>\<^verbatim>\<open>doc_type and doc_type in self.doc_type_patterns\<close>, with the rule set found.\<close>

definition specific_patterns :: "string option \<Rightarrow> pattern dict option" where
  "specific_patterns doc_type =
     (case doc_type of
        None \<Rightarrow> None
      | Some t \<Rightarrow> if t = [] then None else map_of doc_type_patterns t)"

text \<open>
  \<^verbatim>\<open>extract_structured_data(text, doc_type)\<close> with its three stages as parameters,
  each of which returns a value (\<open>Inr\<close>) or raises (\<open>Inl\<close>): \<open>ex\<close> for
  \<^verbatim>\<open>_extract_using_patterns\<close>, \<open>pp\<close> for \<^verbatim>\<open>_post_process_fields\<close> and \<open>vd\<close>
  for \<^verbatim>\<open>_validate_extracted_data\<close>. \<open>now\<close> is the text of
  \<^verbatim>\<open>datetime.utcnow().isoformat()\<close> at the call. The \<^verbatim>\<open>try\<close> block is the
  chain of case distinctions: the first stage that raises ends it in the handler, with
  the result as it has been written so far.
\<close>

definition extract_structured_data_with ::
  "(string \<Rightarrow> pattern dict \<Rightarrow> exn + string dict) \<Rightarrow> (string dict \<Rightarrow> exn + pyval dict) \<Rightarrow>
   (pyval dict \<Rightarrow> string option \<Rightarrow> exn + validation) \<Rightarrow>
   string \<Rightarrow> string \<Rightarrow> string option \<Rightarrow> result" where
  "extract_structured_data_with ex pp vd now text doc_type =
     (if text = [] then empty_result
      else
        let r0 = \<lparr>extraction_timestamp = Some now,
                  document_type =
                    Some (case doc_type of None \<Rightarrow> ''unknown''
                          | Some t \<Rightarrow> if t = [] then ''unknown'' else t),
                  extracted_fields = Some [], validation = None, error = None\<rparr>
        in case ex text patterns of
             Inl e \<Rightarrow> on_error r0 e
           | Inr common_fields \<Rightarrow>
               let raw1 = dict_update [] common_fields;
                   r1 = r0\<lparr>extracted_fields := Some (as_values raw1)\<rparr>
               in case (case specific_patterns doc_type of
                          None \<Rightarrow> Inr raw1
                        | Some pats \<Rightarrow>
                            (case ex text pats of
                               Inl e \<Rightarrow> Inl e
                             | Inr doc_specific \<Rightarrow> Inr (dict_update raw1 doc_specific))) of
                    Inl e \<Rightarrow> on_error r1 e
                  | Inr raw2 \<Rightarrow>
                      let r2 = r1\<lparr>extracted_fields := Some (as_values raw2)\<rparr>
                      in case pp raw2 of
                           Inl e \<Rightarrow> on_error r2 e
                         | Inr processed \<Rightarrow>
                             let r3 = r2\<lparr>extracted_fields := Some processed\<rparr>
                             in case vd processed doc_type of
                                  Inl e \<Rightarrow> on_error r3 e
                                | Inr v \<Rightarrow> r3\<lparr>validation := Some v\<rparr>)"

text \<open>
  The entry point with the stages of this module, none of which raises on strings: the
  conversions catch their own \<^verbatim>\<open>ValueError\<close>.
\<close>

definition extract_structured_data ::
  "(string \<Rightarrow> bool) \<Rightarrow> string \<Rightarrow> string \<Rightarrow> string option \<Rightarrow> result" where
  "extract_structured_data fromisoformat now text doc_type =
     extract_structured_data_with
       (\<lambda>t pats. Inr (extract_using_patterns t pats))
       (\<lambda>flds. Inr (post_process_fields flds))
       (\<lambda>flds dt. Inr (validate_extracted_data fromisoformat flds dt))
       now text doc_type"

text \<open>
  The raw field map of a call: the common matches, overlaid with the matches of the
  rule set of the document type when it has one.
\<close>

definition raw_fields :: "string \<Rightarrow> string option \<Rightarrow> string dict" where
  "raw_fields text doc_type =
     (case specific_patterns doc_type of
        None \<Rightarrow> dict_update [] (extract_using_patterns text patterns)
      | Some pats \<Rightarrow>
          dict_update (dict_update [] (extract_using_patterns text patterns))
                      (extract_using_patterns text pats))"

section \<open>Notions used in the statements\<close>

text \<open>A string of the form \<^verbatim>\<open>YYYY-MM-DD\<close>: four digits, two digits, two digits.\<close>

definition iso_shape :: "string \<Rightarrow> bool" where
  "iso_shape s =
     (case s of
        [a, b, c, d, h1, e, f, h2, g, i] \<Rightarrow>
          is_digit a \<and> is_digit b \<and> is_digit c \<and> is_digit d \<and> h1 = CHR ''-''
          \<and> is_digit e \<and> is_digit f \<and> h2 = CHR ''-'' \<and> is_digit g \<and> is_digit i
      | _ \<Rightarrow> False)"

text \<open>
  The ISO text of a valid date: the form \<^verbatim>\<open>YYYY-MM-DD\<close> with a year, a month
  and a day that exist. \<^verbatim>\<open>datetime.fromisoformat\<close> accepts these strings in every
  version of Python; the examples below take this predicate as their date parser, and the
  theorems hold for every parser.
\<close>

definition iso_date :: "string \<Rightarrow> bool" where
  "iso_date s =
     (iso_shape s \<and>
      valid_date \<lparr>year = digits_val (take 4 s), month = digits_val (take 2 (drop 5 s)),
                  day = digits_val (drop 8 s)\<rparr>)"

text \<open>
  The date that the specification describes for a string: that of the first format of
  the list, in its order, that parses the string.
\<close>

definition first_format :: "string \<Rightarrow> date option" where
  "first_format s =
     (case find (\<lambda>fmt. strptime s fmt \<noteq> None) date_formats of
        None \<Rightarrow> None
      | Some fmt \<Rightarrow> strptime s fmt)"

text \<open>
  The result inside the \<^verbatim>\<open>try\<close> block while its field map is \<open>flds\<close>: time
  stamp and document type are set, there is no validation report and no error yet.
\<close>

definition started :: "string \<Rightarrow> string option \<Rightarrow> pyval dict \<Rightarrow> result" where
  "started now doc_type flds =
     \<lparr>extraction_timestamp = Some now,
      document_type =
        Some (case doc_type of None \<Rightarrow> ''unknown'' | Some t \<Rightarrow> if t = [] then ''unknown'' else t),
      extracted_fields = Some flds, validation = None, error = None\<rparr>"

text \<open>
  The raw field map after the extraction steps of a call whose extraction stage is
  \<open>ex\<close>, or the exception that one of the steps raised.
\<close>

definition extracted_with ::
  "(string \<Rightarrow> pattern dict \<Rightarrow> exn + string dict) \<Rightarrow> string \<Rightarrow> string option \<Rightarrow> exn + string dict" where
  "extracted_with ex inp doc_type =
     (case ex inp patterns of
        Inl e \<Rightarrow> Inl e
      | Inr common_fields \<Rightarrow>
          (case specific_patterns doc_type of
             None \<Rightarrow> Inr (dict_update [] common_fields)
           | Some pats \<Rightarrow>
               (case ex inp pats of
                  Inl e \<Rightarrow> Inl e
                | Inr doc_specific \<Rightarrow>
                    Inr (dict_update (dict_update [] common_fields) doc_specific))))"

text \<open>
  The words of an expression: the texts it can match, whatever follows them. A
  look-ahead and an anchor match the empty text.
\<close>

fun lang :: "regex \<Rightarrow> string set" where
  "lang (Str w) = {m. length m = length w \<and> py_lower m = py_lower w}"
| "lang (Cls items) = {[c] | c. list_ex (\<lambda>i. item_has i c) items}"
| "lang (Cat a b) = {u @ v | u v. u \<in> lang a \<and> v \<in> lang b}"
| "lang (Alt a b) = lang a \<union> lang b"
| "lang Eps = {[]}"
| "lang (Repeat lo hi greedy r) =
     {concat ws | ws. set ws \<subseteq> lang r \<and> lo \<le> length ws \<and> (\<forall>h. hi = Some h \<longrightarrow> length ws \<le> h)}"
| "lang (Ahead r) = {[]}"
| "lang Eol = {[]}"
| "lang Eos = {[]}"

text \<open>
  The text of an amount: one digit or more, then nothing or a point and two digits.
\<close>

definition amount_shape :: "string \<Rightarrow> bool" where
  "amount_shape w =
     (takeWhile is_digit w \<noteq> [] \<and>
      (case dropWhile is_digit w of
         [] \<Rightarrow> True
       | [p, a, b] \<Rightarrow> p = CHR ''.'' \<and> is_digit a \<and> is_digit b
       | _ \<Rightarrow> False))"

section \<open>Properties of the validator\<close>

lemma check_date_is_valid: "is_valid (check_date fi v item) = is_valid v"
  by (cases "(fi, v, item)" rule: check_date.cases) auto

lemma check_date_errors: "errors (check_date fi v item) = errors v"
  by (cases "(fi, v, item)" rule: check_date.cases) auto

lemma foldl_check_date_is_valid:
  "is_valid (foldl (check_date fi) v items) = is_valid v"
  by (induction items arbitrary: v) (simp_all add: check_date_is_valid)

lemma foldl_check_date_errors:
  "errors (foldl (check_date fi) v items) = errors v"
  by (induction items arbitrary: v) (simp_all add: check_date_errors)

lemma check_required_missing:
  "check_required flds v field =
     (if missing flds field
      then v\<lparr>is_valid := False,
             errors := errors v @ [''Missing required field: '' @ field]\<rparr>
      else v)"
  by (auto simp: check_required_def missing_def split: option.splits)

lemma foldl_check_required_is_valid:
  "is_valid (foldl (check_required flds) v req) =
     (is_valid v \<and> \<not> (\<exists>f \<in> set req. missing flds f))"
  by (induction req arbitrary: v) (auto simp: check_required_missing)

lemma foldl_check_required_errors:
  "errors (foldl (check_required flds) v req) =
     errors v @ map (\<lambda>f. ''Missing required field: '' @ f) (filter (missing flds) req)"
  by (induction req arbitrary: v) (auto simp: check_required_missing)

lemma required_table:
  "(case doc_type of None \<Rightarrow> [] | Some t \<Rightarrow>
      (case map_of required_fields t of None \<Rightarrow> [] | Some req \<Rightarrow> req)) = spec_required doc_type"
  by (cases doc_type) (simp_all add: required_fields_def spec_required_def)

lemma validate_unfold:
  "validate_extracted_data fi flds doc_type =
     foldl (check_date fi)
       (foldl (check_required flds) \<lparr>is_valid = True, errors = [], warnings = []\<rparr>
          (spec_required doc_type)) flds"
proof -
  have "validate_extracted_data fi flds doc_type =
     foldl (check_date fi)
       (foldl (check_required flds) \<lparr>is_valid = True, errors = [], warnings = []\<rparr>
          (case doc_type of None \<Rightarrow> [] | Some t \<Rightarrow>
            (case map_of required_fields t of None \<Rightarrow> [] | Some req \<Rightarrow> req))) flds"
    by (simp add: validate_extracted_data_def Let_def split: option.splits)
  then show ?thesis by (simp only: required_table)
qed

lemma validate_is_valid:
  "is_valid (validate_extracted_data fi flds doc_type) =
     (\<not> (\<exists>f \<in> set (spec_required doc_type). missing flds f))"
  by (simp add: validate_unfold foldl_check_date_is_valid foldl_check_required_is_valid)

lemma validate_errors:
  "errors (validate_extracted_data fi flds doc_type) =
     map (\<lambda>f. ''Missing required field: '' @ f) (filter (missing flds) (spec_required doc_type))"
  by (simp add: validate_unfold foldl_check_date_errors foldl_check_required_errors)

text \<open>
  C1. For every field map and every document type, the report of the validator has
  \<open>is_valid = False\<close> exactly when one of the required fields of that type
  (insurance_claim: patient_name, member_id, date_of_service; prescription: patient_name,
  medication, dosage; medical_report: patient_name, report_type; any other type: none) is
  not a key of the map or has a falsy value. The right-hand side does not mention the
  date check, and two verdicts of the date parser give the same \<open>is_valid\<close>: warnings
  never change it.
\<close>

theorem C1_is_valid_iff_required_present:
  "(is_valid (validate_extracted_data fromisoformat flds doc_type) = False
      \<longleftrightarrow> (\<exists>f \<in> set (spec_required doc_type).
             map_of flds f = None \<or> (\<exists>v. map_of flds f = Some v \<and> \<not> truthy v)))
   \<and> is_valid (validate_extracted_data fromisoformat flds doc_type)
       = is_valid (validate_extracted_data fromisoformat' flds doc_type)"
proof -
  have m: "missing flds f \<longleftrightarrow>
      (map_of flds f = None \<or> (\<exists>v. map_of flds f = Some v \<and> \<not> truthy v))" for f
    by (auto simp: missing_def split: option.splits)
  show ?thesis
    by (simp add: validate_is_valid m)
qed

theorem C1_witness:
  "is_valid (validate_extracted_data (\<lambda>s. False)
       [(''patient_name'', PyStr ''John Doe''), (''member_id'', PyStr ''''),
        (''date_of_service'', PyStr ''05/10/2023'')] (Some ''insurance_claim'')) = False
   \<and> is_valid (validate_extracted_data (\<lambda>s. False)
       [(''patient_name'', PyStr ''John Doe''), (''member_id'', PyStr ''ABC123456''),
        (''date_of_service'', PyStr ''05/10/2023'')] (Some ''insurance_claim'')) = True"
  using C1_is_valid_iff_required_present
    [of "\<lambda>s. False" "[(''patient_name'', PyStr ''John Doe''), (''member_id'', PyStr ''''),
        (''date_of_service'', PyStr ''05/10/2023'')]" "Some ''insurance_claim''"]
    C1_is_valid_iff_required_present
    [of "\<lambda>s. False" "[(''patient_name'', PyStr ''John Doe''), (''member_id'', PyStr ''ABC123456''),
        (''date_of_service'', PyStr ''05/10/2023'')]" "Some ''insurance_claim''"]
  by (simp add: spec_required_def)

section \<open>Dictionaries and the two loops\<close>

lemma map_of_dict_update:
  "distinct (map fst other) \<Longrightarrow> map_of (dict_update d other) = map_of d ++ map_of other"
  unfolding dict_update_def
proof (induction other arbitrary: d)
  case Nil
  then show ?case by simp
next
  case (Cons a other)
  obtain k v where a: "a = (k, v)" by (cases a)
  from Cons.prems a have k: "map_of other k = None" and d: "distinct (map fst other)"
    by (auto simp: map_of_eq_None_iff)
  have "map_of (fold (\<lambda>(k, v). AList.update k v) (a # other) d) x
      = (map_of d ++ map_of (a # other)) x" for x
    using k by (simp add: a Cons.IH [OF d] update_conv' map_add_def split: option.splits)
  then show ?case by (simp only: fun_eq_iff) simp
qed

lemma keys_dict_update:
  "distinct (map fst other) \<Longrightarrow> fst ` set (dict_update d other) = fst ` set d \<union> fst ` set other"
  using map_of_dict_update [of other d]
  by (metis dom_map_add dom_map_of_conv_image_fst sup_commute)

lemma distinct_dict_update: "distinct (map fst d) \<Longrightarrow> distinct (map fst (dict_update d other))"
  unfolding dict_update_def
  by (induction other arbitrary: d) (auto simp: distinct_update)

lemma distinct_extract_acc:
  "distinct (map fst acc) \<Longrightarrow> distinct (map fst (foldl (extract_step inp) acc pats))"
  by (induction pats arbitrary: acc)
     (auto simp: extract_step_def distinct_update split: option.splits)

lemma distinct_extract: "distinct (map fst (extract_using_patterns inp pats))"
  by (simp add: extract_using_patterns_def distinct_extract_acc)

lemma keys_extract_acc:
  "fst ` set (foldl (extract_step inp) acc pats) \<subseteq> fst ` set acc \<union> fst ` set pats"
proof (induction pats arbitrary: acc)
  case Nil
  then show ?case by simp
next
  case (Cons a pats)
  have "fst ` set (extract_step inp acc a) \<subseteq> fst ` set acc \<union> {fst a}"
    by (cases a) (auto simp: extract_step_def dom_update split: option.splits)
  with Cons.IH [of "extract_step inp acc a"] show ?case by auto
qed

lemma keys_extract: "fst ` set (extract_using_patterns inp pats) \<subseteq> fst ` set pats"
  using keys_extract_acc [of "inp" "[]" pats] by (simp add: extract_using_patterns_def)

lemma keys_post_process_acc:
  "fst ` set (foldl post_process_step acc flds) \<subseteq> fst ` set acc \<union> fst ` set flds"
proof (induction flds arbitrary: acc)
  case Nil
  then show ?case by simp
next
  case (Cons a flds)
  have "fst ` set (post_process_step acc a) \<subseteq> fst ` set acc \<union> {fst a}"
    by (cases a) (auto simp: post_process_step_def dom_update)
  with Cons.IH [of "post_process_step acc a"] show ?case by auto
qed

lemma keys_post_process: "fst ` set (post_process_fields flds) \<subseteq> fst ` set flds"
  using keys_post_process_acc [of "[]" flds] by (simp add: post_process_fields_def)

lemma distinct_post_process_acc:
  "distinct (map fst acc) \<Longrightarrow> distinct (map fst (foldl post_process_step acc flds))"
  by (induction flds arbitrary: acc) (auto simp: post_process_step_def distinct_update)

lemma map_of_post_process_acc:
  "distinct (map fst flds) \<Longrightarrow>
   map_of (foldl post_process_step acc flds) k =
     (case map_of flds k of
        None \<Rightarrow> map_of acc k
      | Some v \<Rightarrow> if v = [] then map_of acc k else Some (convert_field k (py_strip v)))"
proof (induction flds arbitrary: acc)
  case Nil
  then show ?case by simp
next
  case (Cons a flds)
  obtain k' v' where a: "a = (k', v')" by (cases a)
  from Cons.prems a have nk: "map_of flds k' = None" and d: "distinct (map fst flds)"
    by (auto simp: map_of_eq_None_iff)
  have step: "map_of (post_process_step acc (k', v')) k =
      (if k = k' \<and> v' \<noteq> [] then Some (convert_field k (py_strip v')) else map_of acc k)"
    by (simp add: post_process_step_def update_conv')
  have "map_of (foldl post_process_step acc ((k', v') # flds)) k =
      (case map_of flds k of
         None \<Rightarrow> map_of (post_process_step acc (k', v')) k
       | Some v \<Rightarrow> if v = [] then map_of (post_process_step acc (k', v')) k
                   else Some (convert_field k (py_strip v)))"
    by (simp add: Cons.IH [OF d])
  then show ?case
    unfolding a step using nk by (auto split: option.splits)
qed

lemma map_of_post_process:
  "distinct (map fst flds) \<Longrightarrow>
   map_of (post_process_fields flds) k =
     (case map_of flds k of
        None \<Rightarrow> None
      | Some v \<Rightarrow> if v = [] then None else Some (convert_field k (py_strip v)))"
  by (simp add: post_process_fields_def map_of_post_process_acc split: option.splits)

lemma map_of_extract_acc:
  "distinct (map fst pats) \<Longrightarrow>
   map_of (foldl (extract_step inp) acc pats) k =
     (case map_of pats k of
        None \<Rightarrow> map_of acc k
      | Some p \<Rightarrow>
          (case re_search p inp of
             None \<Rightarrow> map_of acc k
           | Some m \<Rightarrow> Some (if groups m \<noteq> [] then py_strip (hd (groups m)) else py_strip (whole m))))"
proof (induction pats arbitrary: acc)
  case Nil
  then show ?case by simp
next
  case (Cons a pats)
  obtain k' p' where a: "a = (k', p')" by (cases a)
  from Cons.prems a have nk: "map_of pats k' = None" and d: "distinct (map fst pats)"
    by (auto simp: map_of_eq_None_iff)
  have step: "map_of (extract_step inp acc (k', p')) k =
      (if k = k' then
         (case re_search p' inp of None \<Rightarrow> map_of acc k
          | Some m \<Rightarrow> Some (if groups m \<noteq> [] then py_strip (hd (groups m)) else py_strip (whole m)))
       else map_of acc k)"
    by (simp add: extract_step_def update_conv' split: option.splits)
  have "map_of (foldl (extract_step inp) acc ((k', p') # pats)) k =
     (case map_of pats k of
        None \<Rightarrow> map_of (extract_step inp acc (k', p')) k
      | Some p \<Rightarrow>
          (case re_search p inp of
             None \<Rightarrow> map_of (extract_step inp acc (k', p')) k
           | Some m \<Rightarrow> Some (if groups m \<noteq> [] then py_strip (hd (groups m)) else py_strip (whole m))))"
    by (simp add: Cons.IH [OF d])
  then show ?case
    unfolding a step using nk by (auto split: option.splits)
qed

section \<open>The entry point: what a call returns\<close>

lemma map_of_extract:
  "distinct (map fst pats) \<Longrightarrow>
   map_of (extract_using_patterns inp pats) k =
     (case map_of pats k of
        None \<Rightarrow> None
      | Some p \<Rightarrow>
          (case re_search p inp of
             None \<Rightarrow> None
           | Some m \<Rightarrow> Some (if groups m \<noteq> [] then py_strip (hd (groups m)) else py_strip (whole m))))"
  by (simp add: extract_using_patterns_def map_of_extract_acc split: option.splits)

lemma esd_with_empty: "extract_structured_data_with ex pp vd now [] doc_type = empty_result"
  by (simp add: extract_structured_data_with_def)

lemma esd_empty: "extract_structured_data fi now [] doc_type = empty_result"
  by (simp add: extract_structured_data_def esd_with_empty)

lemma esd_nonempty:
  "inp \<noteq> [] \<Longrightarrow> extract_structured_data fi now inp doc_type =
     \<lparr>extraction_timestamp = Some now,
      document_type = Some (case doc_type of None \<Rightarrow> ''unknown'' | Some t \<Rightarrow> if t = [] then ''unknown'' else t),
      extracted_fields = Some (post_process_fields (raw_fields inp doc_type)),
      validation = Some (validate_extracted_data fi (post_process_fields (raw_fields inp doc_type)) doc_type),
      error = None\<rparr>"
  by (simp add: extract_structured_data_def extract_structured_data_with_def raw_fields_def Let_def
      split: option.splits)

lemma update_new_key: "k \<notin> fst ` set al \<Longrightarrow> AList.update k v al = al @ [(k, v)]"
  by (induction al) auto

lemma fold_update_append:
  "distinct (map fst d) \<Longrightarrow> fst ` set acc \<inter> fst ` set d = {} \<Longrightarrow>
   fold (\<lambda>(k, v). AList.update k v) d acc = acc @ d"
proof (induction d arbitrary: acc)
  case Nil
  then show ?case by simp
next
  case (Cons a d)
  obtain k v where a: "a = (k, v)" by (cases a)
  from Cons.prems a have k: "k \<notin> fst ` set acc" and d: "distinct (map fst d)"
    and disj: "fst ` set (acc @ [(k, v)]) \<inter> fst ` set d = {}"
    by auto
  show ?case
    using Cons.IH [OF d disj] by (simp add: a update_new_key [OF k])
qed

lemma dict_update_Nil: "distinct (map fst d) \<Longrightarrow> dict_update [] d = d"
  using fold_update_append [of d "[]"] by (simp add: dict_update_def)

lemma distinct_raw_fields: "distinct (map fst (raw_fields inp doc_type))"
  by (simp add: raw_fields_def distinct_dict_update split: option.splits)

lemma raw_fields_unregistered:
  "specific_patterns doc_type = None \<Longrightarrow> raw_fields inp doc_type = extract_using_patterns inp patterns"
  by (simp add: raw_fields_def dict_update_Nil distinct_extract)

lemma raw_fields_registered:
  "specific_patterns doc_type = Some pats \<Longrightarrow>
   raw_fields inp doc_type =
     dict_update (extract_using_patterns inp patterns) (extract_using_patterns inp pats)"
  by (simp add: raw_fields_def dict_update_Nil distinct_extract)

lemma specific_patterns_registered:
  "specific_patterns doc_type =
     (if doc_type = Some ''insurance_claim'' then map_of doc_type_patterns ''insurance_claim''
      else if doc_type = Some ''prescription'' then map_of doc_type_patterns ''prescription''
      else if doc_type = Some ''medical_report'' then map_of doc_type_patterns ''medical_report''
      else None)"
  by (cases doc_type) (simp_all add: specific_patterns_def doc_type_patterns_def)

lemma specific_patterns_None:
  "doc_type \<notin> {Some ''insurance_claim'', Some ''prescription'', Some ''medical_report''}
   \<Longrightarrow> specific_patterns doc_type = None"
  by (simp add: specific_patterns_registered)

lemma spec_required_None:
  "doc_type \<notin> {Some ''insurance_claim'', Some ''prescription'', Some ''medical_report''}
   \<Longrightarrow> spec_required doc_type = []"
  by (simp add: spec_required_def)

lemma esd_with_ex_fails:
  "inp \<noteq> [] \<Longrightarrow> ex inp patterns = Inl e \<Longrightarrow>
   extract_structured_data_with ex pp vd now inp doc_type
     = (started now doc_type [])\<lparr>error := Some (str_exn e)\<rparr>"
  by (simp add: extract_structured_data_with_def started_def on_error_def)

lemma esd_with_specific_fails:
  "inp \<noteq> [] \<Longrightarrow> ex inp patterns = Inr common \<Longrightarrow> specific_patterns doc_type = Some pats \<Longrightarrow>
   ex inp pats = Inl e \<Longrightarrow>
   extract_structured_data_with ex pp vd now inp doc_type
     = (started now doc_type (as_values (dict_update [] common)))\<lparr>error := Some (str_exn e)\<rparr>"
  by (simp add: extract_structured_data_with_def started_def on_error_def)

lemma extracted_with_Inr:
  "extracted_with ex inp doc_type = Inr raw \<Longrightarrow>
   \<exists>common. ex inp patterns = Inr common \<and>
     (case specific_patterns doc_type of
        None \<Rightarrow> Inr (dict_update [] common)
      | Some pats \<Rightarrow>
          (case ex inp pats of
             Inl e \<Rightarrow> Inl e
           | Inr doc_specific \<Rightarrow> Inr (dict_update (dict_update [] common) doc_specific))) = Inr raw"
  by (cases "ex inp patterns") (simp_all add: extracted_with_def)

lemma esd_with_extracted:
  assumes "inp \<noteq> []" and "extracted_with ex inp doc_type = Inr raw"
  shows "extract_structured_data_with ex pp vd now inp doc_type =
     (case pp raw of
        Inl e \<Rightarrow> (started now doc_type (as_values raw))\<lparr>error := Some (str_exn e)\<rparr>
      | Inr processed \<Rightarrow>
          (case vd processed doc_type of
             Inl e \<Rightarrow> (started now doc_type processed)\<lparr>error := Some (str_exn e)\<rparr>
           | Inr v \<Rightarrow> (started now doc_type processed)\<lparr>validation := Some v\<rparr>))"
proof -
  from extracted_with_Inr [OF assms(2)] obtain common where
    c: "ex inp patterns = Inr common" and
    m: "(case specific_patterns doc_type of
        None \<Rightarrow> Inr (dict_update [] common)
      | Some pats \<Rightarrow>
          (case ex inp pats of
             Inl e \<Rightarrow> Inl e
           | Inr doc_specific \<Rightarrow> Inr (dict_update (dict_update [] common) doc_specific))) = Inr raw"
    by blast
  show ?thesis
  proof (cases "pp raw")
    case (Inl e)
    then show ?thesis
      using assms(1) by (simp add: extract_structured_data_with_def c m started_def on_error_def)
  next
    case (Inr processed)
    show ?thesis
    proof (cases "vd processed doc_type")
      case (Inl e)
      then show ?thesis
        using assms(1) Inr
        by (simp add: extract_structured_data_with_def c m started_def on_error_def)
    next
      case (Inr v)
      then show ?thesis
        using assms(1) \<open>pp raw = Inr processed\<close>
        by (simp add: extract_structured_data_with_def c m started_def on_error_def)
    qed
  qed
qed

lemma esd_error_None: "error (extract_structured_data fi now inp doc_type) = None"
  by (cases "inp = []") (simp_all add: esd_nonempty esd_empty empty_result_def)


lemma extract_x: "extract_using_patterns ''x'' patterns = []"
  by code_simp

section \<open>The claims about the entry point\<close>

text \<open>
  C4. For every text and every registered document type, the field map that is
  normalized is the common matches overlaid with the matches of the rule set of the
  type: a field that the type-specific rules produce has their value, also when the
  common rules produce it too, and every other field has the value of the common rules,
  so the overlay removes no common field. (For the empty text the function returns
  before any rule is run.)
\<close>

theorem C4_type_specific_overlay:
  assumes "doc_type \<in> {Some ''insurance_claim'', Some ''prescription'', Some ''medical_report''}"
  shows "\<exists>pats. specific_patterns doc_type = Some pats \<and>
     (let common = extract_using_patterns inp patterns;
          specific = extract_using_patterns inp pats;
          merged = dict_update common specific
      in (inp \<noteq> [] \<longrightarrow>
            extracted_fields (extract_structured_data fromisoformat now inp doc_type)
              = Some (post_process_fields merged))
         \<and> map_of merged = map_of common ++ map_of specific
         \<and> (\<forall>k v. map_of specific k = Some v \<longrightarrow> map_of merged k = Some v)
         \<and> (\<forall>k. map_of specific k = None \<longrightarrow> map_of merged k = map_of common k))"
proof -
  from assms obtain pats where sp: "specific_patterns doc_type = Some pats"
    by (auto simp: specific_patterns_registered doc_type_patterns_def)
  have m: "map_of (dict_update (extract_using_patterns inp patterns) (extract_using_patterns inp pats))
      = map_of (extract_using_patterns inp patterns) ++ map_of (extract_using_patterns inp pats)"
    by (rule map_of_dict_update [OF distinct_extract])
  show ?thesis
    unfolding Let_def
    apply (rule exI [of _ pats])
    apply (simp only: sp m simp_thms)
    apply (intro conjI allI impI)
      apply (simp add: esd_nonempty raw_fields_registered [OF sp])
     apply (simp add: map_add_def)
    apply (simp add: map_add_def)
    done
qed

theorem C4_witness:
  "Some ''prescription'' \<in> {Some ''insurance_claim'', Some ''prescription'', Some ''medical_report''}
   \<and> (\<exists>pats. specific_patterns (Some ''prescription'') = Some pats \<and>
     (let common = extract_using_patterns ''Name: Jo'' patterns;
          specific = extract_using_patterns ''Name: Jo'' pats;
          merged = dict_update common specific
      in (''Name: Jo'' \<noteq> [] \<longrightarrow>
            extracted_fields (extract_structured_data iso_date ''2024-01-01T00:00:00''
                ''Name: Jo'' (Some ''prescription''))
              = Some (post_process_fields merged))
         \<and> map_of merged = map_of common ++ map_of specific
         \<and> (\<forall>k v. map_of specific k = Some v \<longrightarrow> map_of merged k = Some v)
         \<and> (\<forall>k. map_of specific k = None \<longrightarrow> map_of merged k = map_of common k)))"
proof
  show h: "Some ''prescription''
      \<in> {Some ''insurance_claim'', Some ''prescription'', Some ''medical_report''}"
    by simp
  show "\<exists>pats. specific_patterns (Some ''prescription'') = Some pats \<and>
     (let common = extract_using_patterns ''Name: Jo'' patterns;
          specific = extract_using_patterns ''Name: Jo'' pats;
          merged = dict_update common specific
      in (''Name: Jo'' \<noteq> [] \<longrightarrow>
            extracted_fields (extract_structured_data iso_date ''2024-01-01T00:00:00''
                ''Name: Jo'' (Some ''prescription''))
              = Some (post_process_fields merged))
         \<and> map_of merged = map_of common ++ map_of specific
         \<and> (\<forall>k v. map_of specific k = Some v \<longrightarrow> map_of merged k = Some v)
         \<and> (\<forall>k. map_of specific k = None \<longrightarrow> map_of merged k = map_of common k))"
    by (rule C4_type_specific_overlay [OF h])
qed

text \<open>
  C5. A call on a non-empty text returns a result whatever its stages do: the result
  type has no exception in it. When a stage raises, the result is the one written so
  far, with the text of the exception under \<open>error\<close>: the field map is empty when the
  common extraction raises, holds the common matches when the type-specific extraction
  raises, holds the raw matches when normalization raises, and holds the normalized
  fields, without a validation report, when validation raises. When no stage raises,
  the result has the normalized fields and the report. With the stages of this module
  no error is ever recorded.
\<close>

theorem C5_failures_are_caught:
  assumes "inp \<noteq> []"
  shows
   "(\<forall>e. ex inp patterns = Inl e \<longrightarrow>
        extract_structured_data_with ex pp vd now inp doc_type
          = (started now doc_type [])\<lparr>error := Some (str_exn e)\<rparr>)
    \<and> (\<forall>common pats e.
          ex inp patterns = Inr common \<longrightarrow> specific_patterns doc_type = Some pats \<longrightarrow>
          ex inp pats = Inl e \<longrightarrow>
          extract_structured_data_with ex pp vd now inp doc_type
            = (started now doc_type (as_values (dict_update [] common)))\<lparr>error := Some (str_exn e)\<rparr>)
    \<and> (\<forall>raw e.
          extracted_with ex inp doc_type = Inr raw \<longrightarrow> pp raw = Inl e \<longrightarrow>
          extract_structured_data_with ex pp vd now inp doc_type
            = (started now doc_type (as_values raw))\<lparr>error := Some (str_exn e)\<rparr>)
    \<and> (\<forall>raw processed e.
          extracted_with ex inp doc_type = Inr raw \<longrightarrow> pp raw = Inr processed \<longrightarrow>
          vd processed doc_type = Inl e \<longrightarrow>
          extract_structured_data_with ex pp vd now inp doc_type
            = (started now doc_type processed)\<lparr>error := Some (str_exn e)\<rparr>)
    \<and> (\<forall>raw processed v.
          extracted_with ex inp doc_type = Inr raw \<longrightarrow> pp raw = Inr processed \<longrightarrow>
          vd processed doc_type = Inr v \<longrightarrow>
          extract_structured_data_with ex pp vd now inp doc_type
            = (started now doc_type processed)\<lparr>validation := Some v\<rparr>)
    \<and> error (extract_structured_data fromisoformat now inp doc_type) = None"
proof (intro conjI allI impI)
  fix e assume "ex inp patterns = Inl e"
  then show "extract_structured_data_with ex pp vd now inp doc_type
          = (started now doc_type [])\<lparr>error := Some (str_exn e)\<rparr>"
    by (rule esd_with_ex_fails [OF assms])
next
  fix common pats e
  assume "ex inp patterns = Inr common" "specific_patterns doc_type = Some pats" "ex inp pats = Inl e"
  then show "extract_structured_data_with ex pp vd now inp doc_type
            = (started now doc_type (as_values (dict_update [] common)))\<lparr>error := Some (str_exn e)\<rparr>"
    by (rule esd_with_specific_fails [OF assms])
next
  fix raw e assume "extracted_with ex inp doc_type = Inr raw" "pp raw = Inl e"
  then show "extract_structured_data_with ex pp vd now inp doc_type
            = (started now doc_type (as_values raw))\<lparr>error := Some (str_exn e)\<rparr>"
    by (simp add: esd_with_extracted [OF assms])
next
  fix raw processed e
  assume "extracted_with ex inp doc_type = Inr raw" "pp raw = Inr processed"
    "vd processed doc_type = Inl e"
  then show "extract_structured_data_with ex pp vd now inp doc_type
            = (started now doc_type processed)\<lparr>error := Some (str_exn e)\<rparr>"
    by (simp add: esd_with_extracted [OF assms])
next
  fix raw processed v
  assume "extracted_with ex inp doc_type = Inr raw" "pp raw = Inr processed"
    "vd processed doc_type = Inr v"
  then show "extract_structured_data_with ex pp vd now inp doc_type
            = (started now doc_type processed)\<lparr>validation := Some v\<rparr>"
    by (simp add: esd_with_extracted [OF assms])
next
  show "error (extract_structured_data fromisoformat now inp doc_type) = None"
    by (rule esd_error_None)
qed

theorem C5_witness:
  "''x'' \<noteq> []
   \<and> extract_structured_data_with
        (\<lambda>t pats. Inr (extract_using_patterns t pats))
        (\<lambda>flds. Inr (post_process_fields flds))
        (\<lambda>flds dt. Inl (PyException ''boom''))
        ''2024-01-01T00:00:00'' ''x'' None
      = \<lparr>extraction_timestamp = Some ''2024-01-01T00:00:00'', document_type = Some ''unknown'',
         extracted_fields = Some [], validation = None, error = Some ''boom''\<rparr>"
proof
  show h: "''x'' \<noteq> []" by simp
  have ex: "extracted_with (\<lambda>t pats. Inr (extract_using_patterns t pats)) ''x'' None = Inr []"
    by (simp add: extracted_with_def specific_patterns_def extract_x dict_update_def)
  have pp: "(\<lambda>flds. Inr (post_process_fields flds)) [] = (Inr [] :: exn + pyval dict)"
    by (simp add: post_process_fields_def)
  have vd: "(\<lambda>flds dt. Inl (PyException ''boom'')) ([] :: pyval dict) (None :: string option)
      = (Inl (PyException ''boom'') :: exn + validation)"
    by simp
  from C5_failures_are_caught [OF h, of "\<lambda>t pats. Inr (extract_using_patterns t pats)"
      "\<lambda>flds. Inr (post_process_fields flds)" "\<lambda>flds dt. Inl (PyException ''boom'')"
      "''2024-01-01T00:00:00''" None]
  have "\<forall>raw processed e.
          extracted_with (\<lambda>t pats. Inr (extract_using_patterns t pats)) ''x'' None = Inr raw \<longrightarrow>
          (\<lambda>flds. Inr (post_process_fields flds)) raw = Inr processed \<longrightarrow>
          (\<lambda>flds dt. Inl (PyException ''boom'')) processed None = Inl e \<longrightarrow>
          extract_structured_data_with
            (\<lambda>t pats. Inr (extract_using_patterns t pats))
            (\<lambda>flds. Inr (post_process_fields flds))
            (\<lambda>flds dt. Inl (PyException ''boom''))
            ''2024-01-01T00:00:00'' ''x'' None
            = (started ''2024-01-01T00:00:00'' None processed)\<lparr>error := Some (str_exn e)\<rparr>"
    by blast
  from this [rule_format, OF ex pp vd]
  show "extract_structured_data_with
        (\<lambda>t pats. Inr (extract_using_patterns t pats))
        (\<lambda>flds. Inr (post_process_fields flds))
        (\<lambda>flds dt. Inl (PyException ''boom''))
        ''2024-01-01T00:00:00'' ''x'' None
      = \<lparr>extraction_timestamp = Some ''2024-01-01T00:00:00'', document_type = Some ''unknown'',
         extracted_fields = Some [], validation = None, error = Some ''boom''\<rparr>"
    by (simp add: started_def)
qed

text \<open>
  C6, as stated, fails: for the empty text the function returns the empty dictionary,
  which has no key \<open>extracted_fields\<close>, so the result holds no field map at all,
  empty or not.
\<close>

theorem C6_counterexample:
  "extract_structured_data iso_date ''2024-01-01T00:00:00'' '''' None = empty_result
   \<and> extracted_fields (extract_structured_data iso_date ''2024-01-01T00:00:00'' '''' None)
       \<noteq> Some []"
  by (simp add: esd_empty empty_result_def)

text \<open>
  C6, amended. For the empty text and every document type the function returns at once
  the empty dictionary: none of the keys \<open>extraction_timestamp\<close>, \<open>document_type\<close>,
  \<open>extracted_fields\<close>, \<open>validation\<close> and \<open>error\<close> is set, and nothing is raised.
\<close>

theorem C6_empty_text_returns_empty_dict:
  "extract_structured_data fromisoformat now [] doc_type = empty_result
   \<and> extraction_timestamp empty_result = None \<and> document_type empty_result = None
   \<and> extracted_fields empty_result = None \<and> validation empty_result = None
   \<and> error empty_result = None"
  by (simp add: esd_empty empty_result_def)


theorem C6_witness:
  "extract_structured_data iso_date ''2024-01-01T00:00:00'' [] (Some ''insurance_claim'')
     = \<lparr>extraction_timestamp = None, document_type = None, extracted_fields = None,
        validation = None, error = None\<rparr>"
  using C6_empty_text_returns_empty_dict
    [of iso_date "''2024-01-01T00:00:00''" "Some ''insurance_claim''"]
  by (simp add: empty_result_def)

text \<open>
  C7, as stated, fails: the result records the time of the call, read from the clock, so
  two calls with the same text and document type at different times return different
  results.
\<close>

theorem C7_counterexample:
  "extract_structured_data iso_date ''2024-01-01T00:00:00'' ''x'' None
     \<noteq> extract_structured_data iso_date ''2024-01-01T00:00:01'' ''x'' None"
proof
  assume "extract_structured_data iso_date ''2024-01-01T00:00:00'' ''x'' None
     = extract_structured_data iso_date ''2024-01-01T00:00:01'' ''x'' None"
  then have "extraction_timestamp (extract_structured_data iso_date ''2024-01-01T00:00:00'' ''x'' None)
     = extraction_timestamp (extract_structured_data iso_date ''2024-01-01T00:00:01'' ''x'' None)"
    by (rule arg_cong)
  then show False by (simp add: esd_nonempty)
qed

text \<open>
  C7, amended. Apart from \<open>extraction_timestamp\<close>, the result is the same for every
  reading of the clock: it is a function of the text and the document type alone (and
  of what the date parser of the library accepts). The time stamp is the reading of the
  clock at the call, and is absent for the empty text.
\<close>

theorem C7_only_timestamp_depends_on_clock:
  "(extract_structured_data fromisoformat now inp doc_type)\<lparr>extraction_timestamp := None\<rparr>
     = (extract_structured_data fromisoformat now' inp doc_type)\<lparr>extraction_timestamp := None\<rparr>
   \<and> extraction_timestamp (extract_structured_data fromisoformat now inp doc_type)
     = (if inp = [] then None else Some now)"
  by (cases "inp = []") (simp_all add: esd_nonempty esd_empty empty_result_def)



theorem C7_witness:
  "(extract_structured_data iso_date ''2024-01-01T00:00:00'' ''x'' None)
       \<lparr>extraction_timestamp := None\<rparr>
     = (extract_structured_data iso_date ''2024-01-01T00:00:01'' ''x'' None)
       \<lparr>extraction_timestamp := None\<rparr>
   \<and> extraction_timestamp (extract_structured_data iso_date ''2024-01-01T00:00:00'' ''x'' None)
     = Some ''2024-01-01T00:00:00''"
  using C7_only_timestamp_depends_on_clock
    [of iso_date "''2024-01-01T00:00:00''" "''x''" None "''2024-01-01T00:00:01''"]
  by simp

text \<open>
  C8. For a non-empty text and a document type that is absent or is none of
  insurance_claim, prescription and medical_report, the fields of the result are the
  normalized matches of the common rules alone, so every key is the name of a common
  rule; the validation report is present with \<open>is_valid = True\<close> and no errors; no
  error is recorded; and an absent document type is recorded as \<open>unknown\<close>.
\<close>

theorem C8_unknown_doc_type:
  assumes "inp \<noteq> []"
    and "doc_type \<notin> {Some ''insurance_claim'', Some ''prescription'', Some ''medical_report''}"
  shows "extracted_fields (extract_structured_data fromisoformat now inp doc_type)
           = Some (post_process_fields (extract_using_patterns inp patterns))
    \<and> fst ` set (post_process_fields (extract_using_patterns inp patterns)) \<subseteq> fst ` set patterns
    \<and> (\<exists>v. validation (extract_structured_data fromisoformat now inp doc_type) = Some v
            \<and> is_valid v = True \<and> errors v = [])
    \<and> error (extract_structured_data fromisoformat now inp doc_type) = None
    \<and> (doc_type = None \<longrightarrow>
           document_type (extract_structured_data fromisoformat now inp doc_type) = Some ''unknown'')"
proof (intro conjI)
  note sp = specific_patterns_None [OF assms(2)]
  show "extracted_fields (extract_structured_data fromisoformat now inp doc_type)
           = Some (post_process_fields (extract_using_patterns inp patterns))"
    by (simp add: esd_nonempty [OF assms(1)] raw_fields_unregistered [OF sp])
  show "fst ` set (post_process_fields (extract_using_patterns inp patterns)) \<subseteq> fst ` set patterns"
    using keys_post_process [of "extract_using_patterns inp patterns"] keys_extract [of inp patterns]
    by blast
  show "\<exists>v. validation (extract_structured_data fromisoformat now inp doc_type) = Some v
            \<and> is_valid v = True \<and> errors v = []"
    by (simp add: esd_nonempty [OF assms(1)] validate_is_valid validate_errors
        spec_required_None [OF assms(2)])
  show "error (extract_structured_data fromisoformat now inp doc_type) = None"
    by (simp add: esd_nonempty [OF assms(1)])
  show "doc_type = None \<longrightarrow>
           document_type (extract_structured_data fromisoformat now inp doc_type) = Some ''unknown''"
    by (simp add: esd_nonempty [OF assms(1)])
qed

theorem C8_witness:
  "''x'' \<noteq> []
   \<and> Some ''unknown_type'' \<notin> {Some ''insurance_claim'', Some ''prescription'', Some ''medical_report''}
   \<and> extracted_fields (extract_structured_data iso_date ''2024-01-01T00:00:00'' ''x''
         (Some ''unknown_type''))
       = Some (post_process_fields (extract_using_patterns ''x'' patterns))
   \<and> (\<exists>v. validation (extract_structured_data iso_date ''2024-01-01T00:00:00'' ''x''
         (Some ''unknown_type'')) = Some v \<and> is_valid v = True \<and> errors v = [])"
proof -
  have h1: "''x'' \<noteq> []" by simp
  have h2: "Some ''unknown_type''
      \<notin> {Some ''insurance_claim'', Some ''prescription'', Some ''medical_report''}"
    by simp
  from C8_unknown_doc_type [OF h1 h2, of iso_date "''2024-01-01T00:00:00''"] h1 h2
  show ?thesis by blast
qed

section \<open>Normalization: evaluation and the date formats\<close>

lemmas float_eval = py_float_def float_signed_def float_unsigned_def float_number_def
  float_exponent_def scale10_def digits_val_def digit_val_def is_digit_def c_strip_def c_isspace_def
  py_remove_def py_lower_def py_lower_char_def py_isupper_def Let_def

lemmas strip_eval = py_strip_def py_isspace_def

lemmas date_eval = parse_date_def date_formats_def strptime_def alt1_def alt2_def in_chars_def
  is_digit_def date_of_found_def valid_date_def days_in_month_def is_leap_def isoformat_def
  digit_char_def digits_val_def digit_val_def py_lower_char_def py_isupper_def py_strip_def
  py_isspace_def

lemma amount_not_date_key:
  "\<not> is_date_key ''amount''" "\<not> is_date_key ''patient_responsibility''"
  by (simp_all add: is_date_key_def py_lower_def py_lower_char_def py_isupper_def)

lemma convert_field_amount:
  "key \<in> {''amount'', ''patient_responsibility''} \<Longrightarrow>
   convert_field key cleaned =
     (case py_float (py_strip (py_remove (CHR '','') (py_remove (CHR ''$'') cleaned))) of
        Some x \<Rightarrow> PyFloat x
      | None \<Rightarrow> PyStr cleaned)"
  by (auto simp: convert_field_def)

lemma convert_field_date:
  "is_date_key key \<Longrightarrow>
   convert_field key cleaned = (case parse_date cleaned of Some s \<Rightarrow> PyStr s | None \<Rightarrow> PyNone)"
  using amount_not_date_key by (auto simp: convert_field_def)

lemma try_formats_find:
  "try_formats s fmts =
     (case find (\<lambda>fmt. strptime s fmt \<noteq> None) fmts of
        None \<Rightarrow> None
      | Some fmt \<Rightarrow> map_option isoformat (strptime s fmt))"
  by (induction fmts) (auto split: option.splits)

lemma parse_date_first_format:
  "s \<noteq> [] \<Longrightarrow>
   parse_date s = Some (case first_format s of Some dt \<Rightarrow> isoformat dt | None \<Rightarrow> s)"
  by (auto simp: parse_date_def first_format_def try_formats_find split: option.splits)

lemma is_digit_digit_char: "is_digit (digit_char n)"
proof -
  have "n mod 10 < length ''0123456789''" by simp
  then have "''0123456789'' ! (n mod 10) \<in> set ''0123456789''" by (rule nth_mem)
  then show ?thesis by (simp only: is_digit_def digit_char_def)
qed

lemma iso_shape_isoformat: "iso_shape (isoformat dt)"
  by (simp add: iso_shape_def isoformat_def is_digit_digit_char)

lemma ex1: "parse_date ''01/15/1980'' = Some ''1980-01-15''"
  by (simp add: date_eval)

lemma ex2: "parse_date ''15-01-1980'' = Some ''15-01-1980''"
  by (simp add: date_eval)

lemma ex3: "parse_date ''2023-05-10'' = Some ''2023-05-10''"
  by (simp add: date_eval)

lemma ex4: "is_date_key ''date_of_birth''"
  by (simp add: is_date_key_def py_lower_def py_lower_char_def py_isupper_def)

lemma digit_val_less: "is_digit c \<Longrightarrow> digit_val c < 10"
  by (auto simp: is_digit_def digit_val_def)

lemma digit_char_digit_val: "is_digit c \<Longrightarrow> digit_char (10 * k + digit_val c) = c"
proof -
  assume d: "is_digit c"
  then have "(10 * k + digit_val c) mod 10 = digit_val c"
    using digit_val_less [OF d] by simp
  moreover have "''0123456789'' ! digit_val c = c"
    using d by (auto simp: is_digit_def digit_val_def)
  ultimately show ?thesis by (simp only: digit_char_def)
qed

lemma digit_char_digit_val0: "is_digit c \<Longrightarrow> digit_char (digit_val c) = c"
  using digit_char_digit_val [of c 0] by simp

lemma digit_not_sep:
  "is_digit c \<Longrightarrow> c \<noteq> CHR ''-'' \<and> c \<noteq> CHR ''/'' \<and> c \<noteq> CHR '' '' \<and> \<not> py_isspace c"
  by (auto simp: is_digit_def py_isspace_def)

lemma digit_not_lit:
  "is_digit c \<Longrightarrow> py_lower_char c \<noteq> py_lower_char (CHR ''-'')
     \<and> py_lower_char c \<noteq> py_lower_char (CHR ''/'')"
  by (auto simp: is_digit_def py_lower_char_def py_isupper_def)

lemma digits_val2: "digits_val [a, b] = 10 * digit_val a + digit_val b"
  by (simp add: digits_val_def)

lemma digits_val4:
  "digits_val [a, b, c, d] = 1000 * digit_val a + 100 * digit_val b + 10 * digit_val c + digit_val d"
  by (simp add: digits_val_def)

lemma pad2:
  assumes "is_digit a" "is_digit b"
  shows "[digit_char (digits_val [a, b] div 10), digit_char (digits_val [a, b])] = [a, b]"
proof -
  have "digits_val [a, b] div 10 = digit_val a"
    using digit_val_less [OF assms(2)] by (simp add: digits_val2)
  then show ?thesis
    using digit_char_digit_val0 [OF assms(1)] digit_char_digit_val [OF assms(2), of "digit_val a"]
    by (simp add: digits_val2)
qed

lemma pad4:
  assumes "is_digit a" "is_digit b" "is_digit c" "is_digit d"
  shows "[digit_char (digits_val [a, b, c, d] div 1000), digit_char (digits_val [a, b, c, d] div 100),
          digit_char (digits_val [a, b, c, d] div 10), digit_char (digits_val [a, b, c, d])]
         = [a, b, c, d]"
proof -
  let ?y = "digits_val [a, b, c, d]"
  note l = digit_val_less [OF assms(1)] digit_val_less [OF assms(2)]
    digit_val_less [OF assms(3)] digit_val_less [OF assms(4)]
  have 1: "?y div 1000 = digit_val a" using l by (simp add: digits_val4)
  have 2: "?y div 100 = 10 * digit_val a + digit_val b" using l by (simp add: digits_val4)
  have 3: "?y div 10 = 10 * (10 * digit_val a + digit_val b) + digit_val c"
    using l by (simp add: digits_val4)
  have 4: "?y = 10 * (100 * digit_val a + 10 * digit_val b + digit_val c) + digit_val d"
    by (simp add: digits_val4)
  have "digit_char (?y div 1000) = a" by (simp only: 1 digit_char_digit_val0 [OF assms(1)])
  moreover have "digit_char (?y div 100) = b" by (simp only: 2 digit_char_digit_val [OF assms(2)])
  moreover have "digit_char (?y div 10) = c" by (simp only: 3 digit_char_digit_val [OF assms(3)])
  moreover have "digit_char ?y = d"
    using digit_char_digit_val [OF assms(4), of "100 * digit_val a + 10 * digit_val b + digit_val c"]
    by (simp only: 4)
  ultimately show ?thesis by simp
qed

lemma lit_fails_on_digit:
  "is_digit c \<Longrightarrow> x = CHR ''-'' \<or> x = CHR ''/'' \<Longrightarrow> dir_alts (Lit x) (c # r) = []"
  using digit_not_lit [of c] by (auto simp: alt1_def)

lemma lit_dash: "dir_alts (Lit (CHR ''-'')) (CHR ''-'' # r) = [([CHR ''-''], r)]"
  by (simp add: alt1_def)

lemma month_then_lit_fails:
  assumes "is_digit a" "is_digit b" "is_digit c" "x = CHR ''-'' \<or> x = CHR ''/''"
  shows "fmt_match (Dir_m # Lit x # ds) (a # b # c # r) = []"
  using lit_fails_on_digit [OF assms(2,4)] lit_fails_on_digit [OF assms(3,4)]
  by (simp add: alt1_def alt2_def del: dir_alts.simps(5))

lemma iso_shape_other_formats:
  assumes "iso_shape s"
  shows "strptime s [Dir_m, Lit (CHR ''/''), Dir_d, Lit (CHR ''/''), Dir_Y] = None"
    and "strptime s [Dir_m, Lit (CHR ''-''), Dir_d, Lit (CHR ''-''), Dir_Y] = None"
    and "strptime s [Dir_m, Lit (CHR ''/''), Dir_d, Lit (CHR ''/''), Dir_y] = None"
    and "strptime s [Dir_m, Lit (CHR ''-''), Dir_d, Lit (CHR ''-''), Dir_y] = None"
proof -
  from assms obtain a b c d e f g i where
    s: "s = [a, b, c, d, CHR ''-'', e, f, CHR ''-'', g, i]"
    and dg: "is_digit a" "is_digit b" "is_digit c"
    by (auto simp: iso_shape_def split: list.splits)
  show "strptime s [Dir_m, Lit (CHR ''/''), Dir_d, Lit (CHR ''/''), Dir_Y] = None"
    and "strptime s [Dir_m, Lit (CHR ''-''), Dir_d, Lit (CHR ''-''), Dir_Y] = None"
    and "strptime s [Dir_m, Lit (CHR ''/''), Dir_d, Lit (CHR ''/''), Dir_y] = None"
    and "strptime s [Dir_m, Lit (CHR ''-''), Dir_d, Lit (CHR ''-''), Dir_y] = None"
    unfolding s strptime_def
    by (simp_all only: month_then_lit_fails [OF dg] list.case simp_thms)
qed


lemma year_part:
  assumes "is_digit a" "is_digit b" "is_digit c" "is_digit d"
  shows "fmt_match (Dir_Y # Lit (CHR ''-'') # ds) (a # b # c # d # CHR ''-'' # r) =
     map (\<lambda>(found, rest). ((Dir_Y, [a, b, c, d]) # (Lit (CHR ''-''), [CHR ''-'']) # found, rest))
         (fmt_match ds r)"
  using assms by (simp add: lit_dash del: dir_alts.simps(5)) (simp add: comp_def case_prod_unfold)

lemma month_part:
  assumes "is_digit e" "is_digit f"
  shows "fmt_match (Dir_m # Lit (CHR ''-'') # ds) (e # f # CHR ''-'' # r) =
     (if (e = CHR ''1'' \<and> in_chars ''012'' f) \<or> (e = CHR ''0'' \<and> in_chars ''123456789'' f)
      then map (\<lambda>(found, rest). ((Dir_m, [e, f]) # (Lit (CHR ''-''), [CHR ''-'']) # found, rest))
               (fmt_match ds r)
      else [])"
  using lit_fails_on_digit [OF assms(2), of "CHR ''-''"]
  by (auto simp: lit_dash alt1_def alt2_def in_chars_def comp_def case_prod_unfold
      simp del: dir_alts.simps(5))

lemma day_part:
  assumes "is_digit g" "is_digit i"
  shows "fmt_match [Dir_d] [g, i] = [] \<or>
         (\<exists>rest. fmt_match [Dir_d] [g, i] = ([(Dir_d, [g, i])], []) # rest) \<or>
         (\<exists>rest. fmt_match [Dir_d] [g, i] = ([(Dir_d, [g])], [i]) # rest)"
  using digit_not_sep [OF assms(1)]
  by (auto simp: alt1_def alt2_def in_chars_def)

lemma strptime_iso_roundtrip:
  assumes "iso_shape s"
    and "strptime s [Dir_Y, Lit (CHR ''-''), Dir_m, Lit (CHR ''-''), Dir_d] = Some dt"
  shows "isoformat dt = s"
proof -
  from assms(1) obtain a b c d e f g i where
    s: "s = [a, b, c, d, CHR ''-'', e, f, CHR ''-'', g, i]"
    and dg: "is_digit a" "is_digit b" "is_digit c" "is_digit d"
      "is_digit e" "is_digit f" "is_digit g" "is_digit i"
    by (auto simp: iso_shape_def split: list.splits)
  define D where "D = fmt_match [Dir_d] [g, i]"
  define wrap where "wrap = (\<lambda>(found, rest). ((Dir_Y, [a, b, c, d]) # (Lit (CHR ''-''), [CHR ''-'']) #
      (Dir_m, [e, f]) # (Lit (CHR ''-''), [CHR ''-'']) # found, rest :: string))"
  have fm: "fmt_match [Dir_Y, Lit (CHR ''-''), Dir_m, Lit (CHR ''-''), Dir_d] s =
     (if (e = CHR ''1'' \<and> in_chars ''012'' f) \<or> (e = CHR ''0'' \<and> in_chars ''123456789'' f)
      then map wrap D else [])"
    unfolding s D_def wrap_def
    by (simp only: year_part [OF dg(1-4)] month_part [OF dg(5,6)])
       (simp add: comp_def case_prod_unfold del: fmt_match.simps)
  from day_part [OF dg(7,8)]
  have "D = [] \<or> (\<exists>rest. D = ([(Dir_d, [g, i])], []) # rest) \<or>
         (\<exists>rest. D = ([(Dir_d, [g])], [i]) # rest)"
    by (simp only: D_def)
  with assms(2) have dt: "dt = date_of_found [(Dir_Y, [a, b, c, d]), (Lit (CHR ''-''), [CHR ''-'']),
      (Dir_m, [e, f]), (Lit (CHR ''-''), [CHR ''-'']), (Dir_d, [g, i])]"
    unfolding strptime_def fm
    by (auto simp: wrap_def split: if_splits)
  have st: "py_strip [e, f] = [e, f]" "py_strip [g, i] = [g, i]"
    using digit_not_sep [OF dg(5)] digit_not_sep [OF dg(6)] digit_not_sep [OF dg(7)]
      digit_not_sep [OF dg(8)]
    by (simp_all add: py_strip_def)
  have "isoformat dt =
     [digit_char (digits_val [a, b, c, d] div 1000), digit_char (digits_val [a, b, c, d] div 100),
      digit_char (digits_val [a, b, c, d] div 10), digit_char (digits_val [a, b, c, d])]
     @ CHR ''-'' # [digit_char (digits_val [e, f] div 10), digit_char (digits_val [e, f])]
     @ CHR ''-'' # [digit_char (digits_val [g, i] div 10), digit_char (digits_val [g, i])]"
    by (simp add: dt isoformat_def date_of_found_def st)
  also have "\<dots> = s"
    by (simp only: pad4 [OF dg(1-4)] pad2 [OF dg(5,6)] pad2 [OF dg(7,8)] s) simp
  finally show ?thesis .
qed

lemma digit_val_nth: "k < 10 \<Longrightarrow> digit_val (''0123456789'' ! k) = k"
  by (simp add: less_Suc_eq numeral_eq_Suc nth_Cons' digit_val_def) auto

lemma digit_val_digit_char: "digit_val (digit_char n) = n mod 10"
  by (simp only: digit_char_def) (rule digit_val_nth, simp)

lemma decimal2:
  fixes n :: nat
  assumes "n < 100"
  shows "10 * (n div 10 mod 10) + n mod 10 = n"
proof -
  from assms have "n div 10 < 10" by simp
  then show ?thesis by simp
qed

lemma decimal4:
  fixes n :: nat
  assumes "n < 10000"
  shows "1000 * (n div 1000 mod 10) + 100 * (n div 100 mod 10) + 10 * (n div 10 mod 10) + n mod 10 = n"
proof -
  define a where "a = n div 10"
  define b where "b = a div 10"
  define c where "c = b div 10"
  have b: "n div 100 = b" by (simp add: a_def b_def div_mult2_eq [symmetric])
  have c: "n div 1000 = c" by (simp add: a_def b_def c_def div_mult2_eq [symmetric])
  from assms have "c < 10" unfolding c [symmetric] by simp
  then have c10: "c mod 10 = c" by simp
  have 1: "n = 10 * a + n mod 10" by (simp add: a_def)
  have 2: "a = 10 * b + a mod 10" by (simp add: b_def)
  have 3: "b = 10 * c + b mod 10" by (simp add: c_def)
  define r0 where "r0 = n mod 10"
  define r1 where "r1 = a mod 10"
  define r2 where "r2 = b mod 10"
  from 1 2 3 have "1000 * c + 100 * r2 + 10 * r1 + r0 = n"
    unfolding r0_def [symmetric] r1_def [symmetric] r2_def [symmetric] by linarith
  then show ?thesis
    by (simp only: b c c10 a_def [symmetric] r0_def r1_def r2_def)
qed

lemma digits_val_pad4:
  "n < 10000 \<Longrightarrow>
   digits_val [digit_char (n div 1000), digit_char (n div 100), digit_char (n div 10), digit_char n] = n"
  by (simp only: digits_val4 digit_val_digit_char decimal4)

lemma digits_val_pad2:
  "n < 100 \<Longrightarrow> digits_val [digit_char (n div 10), digit_char n] = n"
  by (simp only: digits_val2 digit_val_digit_char decimal2)

lemma iso_date_isoformat:
  assumes "valid_date dt"
  shows "iso_date (isoformat dt)"
proof -
  from assms have y: "year dt < 10000" and m: "month dt < 100" and d: "day dt < 100"
    by (auto simp: valid_date_def days_in_month_def split: if_splits)
  have "take 4 (isoformat dt) = [digit_char (year dt div 1000), digit_char (year dt div 100),
      digit_char (year dt div 10), digit_char (year dt)]"
    by (simp add: isoformat_def)
  then have 1: "digits_val (take 4 (isoformat dt)) = year dt"
    by (simp only: digits_val_pad4 [OF y])
  have "take 2 (drop 5 (isoformat dt)) = [digit_char (month dt div 10), digit_char (month dt)]"
    by (simp add: isoformat_def)
  then have 2: "digits_val (take 2 (drop 5 (isoformat dt))) = month dt"
    by (simp only: digits_val_pad2 [OF m])
  have "drop 8 (isoformat dt) = [digit_char (day dt div 10), digit_char (day dt)]"
    by (simp add: isoformat_def)
  then have 3: "digits_val (drop 8 (isoformat dt)) = day dt"
    by (simp only: digits_val_pad2 [OF d])
  show ?thesis
    using assms by (simp only: iso_date_def iso_shape_isoformat 1 2 3) (simp add: valid_date_def)
qed

lemma strptime_valid: "strptime s fmt = Some dt \<Longrightarrow> valid_date dt"
  by (auto simp: strptime_def split: list.splits if_splits)

lemma first_format_valid: "first_format s = Some dt \<Longrightarrow> valid_date dt"
  by (auto simp: first_format_def strptime_valid split: option.splits)

lemma parse_date_iso_shape:
  assumes "iso_shape s"
  shows "parse_date s = Some s"
proof -
  from assms have ne: "s \<noteq> []" by (auto simp: iso_shape_def)
  note other = iso_shape_other_formats [OF assms]
  show ?thesis
  proof (cases "strptime s [Dir_Y, Lit (CHR ''-''), Dir_m, Lit (CHR ''-''), Dir_d]")
    case None
    then show ?thesis
      using ne by (simp add: parse_date_def date_formats_def other)
  next
    case (Some dt)
    then show ?thesis
      using ne strptime_iso_roundtrip [OF assms Some]
      by (simp add: parse_date_def date_formats_def other)
  qed
qed

lemma strptime_ex:
  "strptime ''05/10/2023'' [Dir_m, Lit (CHR ''/''), Dir_d, Lit (CHR ''/''), Dir_Y]
     = Some \<lparr>year = 2023, month = 5, day = 10\<rparr>"
  by (simp add: date_eval)

lemma first_format_ex: "first_format ''05/10/2023'' = Some \<lparr>year = 2023, month = 5, day = 10\<rparr>"
  by (simp add: first_format_def date_formats_def strptime_ex)


section \<open>The claims about normalization\<close>

text \<open>
  C2. For a field whose name contains \<open>date\<close> or \<open>dob\<close> in any case, and a non-empty
  string \<open>s\<close> handed to the date conversion (the stripped value of the field), the
  normalized value is the ISO text of the date of the first format, in the order
  \<^verbatim>\<open>%m/%d/%Y, %m-%d-%Y, %Y-%m-%d, %m/%d/%y, %m-%d-%y\<close>, that parses \<open>s\<close>, and it is
  \<open>s\<close> itself when none does; nothing is raised. A date that a format yields is a valid
  date and its text has the form \<^verbatim>\<open>YYYY-MM-DD\<close>. In a field map the value stored under
  the key is this one. \<^verbatim>\<open>01/15/1980\<close> becomes \<^verbatim>\<open>1980-01-15\<close>, and
  \<^verbatim>\<open>15-01-1980\<close> stays as it is.
\<close>

theorem C2_date_normalization:
  "(is_date_key key \<and> s \<noteq> [] \<longrightarrow>
      convert_field key s = PyStr (case first_format s of Some dt \<Rightarrow> isoformat dt | None \<Rightarrow> s))
   \<and> (is_date_key key \<and> distinct (map fst flds) \<and> map_of flds key = Some v \<and> py_strip v = s
        \<and> s \<noteq> [] \<longrightarrow>
      map_of (post_process_fields flds) key
        = Some (PyStr (case first_format s of Some dt \<Rightarrow> isoformat dt | None \<Rightarrow> s)))
   \<and> first_format s =
        (case find (\<lambda>fmt. strptime s fmt \<noteq> None)
           [[Dir_m, Lit (CHR ''/''), Dir_d, Lit (CHR ''/''), Dir_Y],
            [Dir_m, Lit (CHR ''-''), Dir_d, Lit (CHR ''-''), Dir_Y],
            [Dir_Y, Lit (CHR ''-''), Dir_m, Lit (CHR ''-''), Dir_d],
            [Dir_m, Lit (CHR ''/''), Dir_d, Lit (CHR ''/''), Dir_y],
            [Dir_m, Lit (CHR ''-''), Dir_d, Lit (CHR ''-''), Dir_y]] of
           None \<Rightarrow> None | Some fmt \<Rightarrow> strptime s fmt)
   \<and> (\<forall>dt. first_format s = Some dt \<longrightarrow> valid_date dt \<and> iso_date (isoformat dt))
   \<and> convert_field ''date_of_birth'' ''01/15/1980'' = PyStr ''1980-01-15''
   \<and> convert_field ''date_of_birth'' ''15-01-1980'' = PyStr ''15-01-1980''"
proof (intro conjI impI allI)
  show c: "convert_field key s = PyStr (case first_format s of Some dt \<Rightarrow> isoformat dt | None \<Rightarrow> s)"
    if "is_date_key key \<and> s \<noteq> []" for key s
    using that by (simp add: convert_field_date parse_date_first_format)
  show "map_of (post_process_fields flds) key
        = Some (PyStr (case first_format s of Some dt \<Rightarrow> isoformat dt | None \<Rightarrow> s))"
    if h: "is_date_key key \<and> distinct (map fst flds) \<and> map_of flds key = Some v \<and> py_strip v = s
        \<and> s \<noteq> []"
  proof -
    from h have "v \<noteq> []" by (auto simp: py_strip_def)
    with h show ?thesis by (simp add: map_of_post_process c)
  qed
  show "first_format s =
        (case find (\<lambda>fmt. strptime s fmt \<noteq> None)
           [[Dir_m, Lit (CHR ''/''), Dir_d, Lit (CHR ''/''), Dir_Y],
            [Dir_m, Lit (CHR ''-''), Dir_d, Lit (CHR ''-''), Dir_Y],
            [Dir_Y, Lit (CHR ''-''), Dir_m, Lit (CHR ''-''), Dir_d],
            [Dir_m, Lit (CHR ''/''), Dir_d, Lit (CHR ''/''), Dir_y],
            [Dir_m, Lit (CHR ''-''), Dir_d, Lit (CHR ''-''), Dir_y]] of
           None \<Rightarrow> None | Some fmt \<Rightarrow> strptime s fmt)"
    by (simp only: first_format_def date_formats_def)
  show "valid_date dt" if "first_format s = Some dt" for dt
    using that by (rule first_format_valid)
  show "iso_date (isoformat dt)" if "first_format s = Some dt" for dt
    using that by (simp add: first_format_valid iso_date_isoformat)
  show "convert_field ''date_of_birth'' ''01/15/1980'' = PyStr ''1980-01-15''"
    by (simp add: convert_field_date ex4 ex1)
  show "convert_field ''date_of_birth'' ''15-01-1980'' = PyStr ''15-01-1980''"
    by (simp add: convert_field_date ex4 ex2)
qed

theorem C2_witness:
  "(is_date_key ''date_of_service'' \<and> ''05/10/2023'' \<noteq> [])
   \<and> (is_date_key ''date_of_service''
      \<and> distinct (map fst [(''date_of_service'', '' 05/10/2023 '')])
      \<and> map_of [(''date_of_service'', '' 05/10/2023 '')] ''date_of_service'' = Some '' 05/10/2023 ''
      \<and> py_strip '' 05/10/2023 '' = ''05/10/2023'' \<and> ''05/10/2023'' \<noteq> [])
   \<and> convert_field ''date_of_service'' ''05/10/2023'' = PyStr ''2023-05-10''
   \<and> map_of (post_process_fields [(''date_of_service'', '' 05/10/2023 '')]) ''date_of_service''
       = Some (PyStr ''2023-05-10'')"
proof -
  have k: "is_date_key ''date_of_service''"
    by (simp add: is_date_key_def py_lower_def py_lower_char_def py_isupper_def)
  have h1: "is_date_key ''date_of_service'' \<and> ''05/10/2023'' \<noteq> []"
    using k by simp
  have st: "py_strip '' 05/10/2023 '' = ''05/10/2023''" by (simp add: strip_eval)
  have h2: "is_date_key ''date_of_service''
      \<and> distinct (map fst [(''date_of_service'', '' 05/10/2023 '')])
      \<and> map_of [(''date_of_service'', '' 05/10/2023 '')] ''date_of_service'' = Some '' 05/10/2023 ''
      \<and> py_strip '' 05/10/2023 '' = ''05/10/2023'' \<and> ''05/10/2023'' \<noteq> []"
    using k st by simp
  have iso: "(case first_format ''05/10/2023'' of Some dt \<Rightarrow> isoformat dt | None \<Rightarrow> ''05/10/2023'')
      = ''2023-05-10''"
    by (simp add: first_format_ex isoformat_def digit_char_def)
  note inst = C2_date_normalization [of "''date_of_service''" "''05/10/2023''"
      "[(''date_of_service'', '' 05/10/2023 '')]" "'' 05/10/2023 ''"]
  have c1: "convert_field ''date_of_service'' ''05/10/2023'' = PyStr ''2023-05-10''"
    using inst [THEN conjunct1, THEN mp, OF h1] by (simp only: iso)
  have c2: "map_of (post_process_fields [(''date_of_service'', '' 05/10/2023 '')]) ''date_of_service''
       = Some (PyStr ''2023-05-10'')"
    using inst [THEN conjunct2, THEN conjunct1, THEN mp, OF h2] by (simp only: iso)
  show ?thesis by (rule conjI [OF h1 conjI [OF h2 conjI [OF c1 c2]]])
qed

text \<open>
  C3, as stated, fails: when \<^verbatim>\<open>float\<close> rejects the text, the value kept is the
  stripped original, with its currency symbols and commas, not the text from which they
  have been removed.
\<close>

theorem C3_counterexample:
  "post_process_fields [(''amount'', ''$abc'')] = [(''amount'', PyStr ''$abc'')]
   \<and> post_process_fields [(''amount'', ''$abc'')] \<noteq> [(''amount'', PyStr ''abc'')]"
proof -
  have "convert_field ''amount'' ''$abc'' = PyStr ''$abc''"
    by (simp add: convert_field_def float_eval strip_eval)
  then have "post_process_fields [(''amount'', ''$abc'')] = [(''amount'', PyStr ''$abc'')]"
    by (simp add: post_process_fields_def post_process_step_def strip_eval)
  then show ?thesis by simp
qed

text \<open>
  C3, amended. For a non-empty raw value of a field named \<open>amount\<close> or
  \<open>patient_responsibility\<close>, normalization strips white space, removes \<^verbatim>\<open>$\<close> and
  commas and reads the rest as a number; when that fails the value is the raw value with
  its white space stripped, symbols and commas still in it; nothing is raised.
  \<^verbatim>\<open>$150.00\<close> becomes the number 150, and \<^verbatim>\<open>abc\<close> the string \<^verbatim>\<open>abc\<close>.
\<close>

theorem C3_amount_normalization:
  "(key \<in> {''amount'', ''patient_responsibility''} \<and> distinct (map fst flds)
      \<and> map_of flds key = Some v \<and> v \<noteq> [] \<longrightarrow>
    map_of (post_process_fields flds) key =
      Some (case py_float (py_strip (py_remove (CHR '','') (py_remove (CHR ''$'') (py_strip v)))) of
              Some x \<Rightarrow> PyFloat x
            | None \<Rightarrow> PyStr (py_strip v)))
   \<and> post_process_fields [(''amount'', ''$150.00'')] = [(''amount'', PyFloat (Finite 150))]
   \<and> post_process_fields [(''amount'', ''abc'')] = [(''amount'', PyStr ''abc'')]"
proof (intro conjI impI)
  assume h: "key \<in> {''amount'', ''patient_responsibility''} \<and> distinct (map fst flds)
      \<and> map_of flds key = Some v \<and> v \<noteq> []"
  then have k: "key \<in> {''amount'', ''patient_responsibility''}" by simp
  from h show "map_of (post_process_fields flds) key =
      Some (case py_float (py_strip (py_remove (CHR '','') (py_remove (CHR ''$'') (py_strip v)))) of
              Some x \<Rightarrow> PyFloat x
            | None \<Rightarrow> PyStr (py_strip v))"
    by (simp add: map_of_post_process convert_field_amount [OF k])
next
  have "convert_field ''amount'' ''$150.00'' = PyFloat (Finite 150)"
    by (simp add: convert_field_def float_eval strip_eval)
  then show "post_process_fields [(''amount'', ''$150.00'')] = [(''amount'', PyFloat (Finite 150))]"
    by (simp add: post_process_fields_def post_process_step_def strip_eval)
next
  have "convert_field ''amount'' ''abc'' = PyStr ''abc''"
    by (simp add: convert_field_def float_eval strip_eval)
  then show "post_process_fields [(''amount'', ''abc'')] = [(''amount'', PyStr ''abc'')]"
    by (simp add: post_process_fields_def post_process_step_def strip_eval)
qed


theorem C3_witness:
  "(''patient_responsibility'' \<in> {''amount'', ''patient_responsibility''}
    \<and> distinct (map fst [(''patient_responsibility'', '' $1,250.50''), (''amount'', ''$12x'')])
    \<and> map_of [(''patient_responsibility'', '' $1,250.50''), (''amount'', ''$12x'')]
         ''patient_responsibility'' = Some '' $1,250.50''
    \<and> '' $1,250.50'' \<noteq> [])
   \<and> map_of (post_process_fields [(''patient_responsibility'', '' $1,250.50''), (''amount'', ''$12x'')])
         ''patient_responsibility'' = Some (PyFloat (Finite (2501 / 2)))"
proof -
  have h: "''patient_responsibility'' \<in> {''amount'', ''patient_responsibility''}
      \<and> distinct (map fst [(''patient_responsibility'', '' $1,250.50''), (''amount'', ''$12x'')])
      \<and> map_of [(''patient_responsibility'', '' $1,250.50''), (''amount'', ''$12x'')]
         ''patient_responsibility'' = Some '' $1,250.50''
      \<and> '' $1,250.50'' \<noteq> []"
    by simp
  have f: "(case py_float (py_strip (py_remove (CHR '','') (py_remove (CHR ''$'')
                (py_strip '' $1,250.50'')))) of
              Some x \<Rightarrow> PyFloat x
            | None \<Rightarrow> PyStr (py_strip '' $1,250.50''))
      = PyFloat (Finite (2501 / 2))"
    by (simp add: float_eval strip_eval)
  have c: "map_of (post_process_fields [(''patient_responsibility'', '' $1,250.50''), (''amount'', ''$12x'')])
         ''patient_responsibility'' = Some (PyFloat (Finite (2501 / 2)))"
    using C3_amount_normalization [of "''patient_responsibility''"
      "[(''patient_responsibility'', '' $1,250.50''), (''amount'', ''$12x'')]" "'' $1,250.50''",
      THEN conjunct1, THEN mp, OF h]
    by (simp only: f)
  show ?thesis by (rule conjI [OF h c])
qed

text \<open>
  C9. A string of the form \<^verbatim>\<open>YYYY-MM-DD\<close> is returned as it is by the date
  conversion, whether or not it names a date that exists; hence a second pass over any
  result of the conversion changes nothing. \<^verbatim>\<open>2023-05-10\<close> gives \<^verbatim>\<open>2023-05-10\<close>.
\<close>

theorem C9_iso_dates_are_fixed:
  "(iso_shape s \<longrightarrow> parse_date s = Some s)
   \<and> (parse_date s = Some t \<longrightarrow> parse_date t = Some t)
   \<and> parse_date ''2023-05-10'' = Some ''2023-05-10''"
proof (intro conjI impI)
  show "parse_date s = Some s" if "iso_shape s" using that by (rule parse_date_iso_shape)
  show "parse_date ''2023-05-10'' = Some ''2023-05-10''"
    by (rule parse_date_iso_shape) (simp add: iso_shape_def is_digit_def)
  show "parse_date t = Some t" if p: "parse_date s = Some t"
  proof (cases "first_format s")
    case None
    with p have "s \<noteq> []" "t = s"
      by (auto simp: parse_date_def first_format_def try_formats_find split: if_splits option.splits)
    with p show ?thesis by simp
  next
    case (Some dt)
    with p have "t = isoformat dt"
      by (auto simp: parse_date_def first_format_def try_formats_find split: if_splits option.splits)
    then show ?thesis by (simp add: parse_date_iso_shape iso_shape_isoformat)
  qed
qed

theorem C9_witness:
  "iso_shape ''1980-01-15'' \<and> parse_date ''1980-01-15'' = Some ''1980-01-15''
   \<and> parse_date ''01/15/1980'' = Some ''1980-01-15''"
proof -
  have h: "iso_shape ''1980-01-15''" by (simp add: iso_shape_def is_digit_def)
  have p: "parse_date ''01/15/1980'' = Some ''1980-01-15''" by (simp add: date_eval)
  have c: "parse_date ''1980-01-15'' = Some ''1980-01-15''"
    using C9_iso_dates_are_fixed [of "''1980-01-15''" "''1980-01-15''", THEN conjunct1, THEN mp, OF h] .
  show ?thesis by (rule conjI [OF h conjI [OF c p]])
qed

end
